theory Spec2Isabelle
  imports Complex_Main "HOL-Library.Word"
begin

section \<open>Data model\<close>

text \<open>
  A JavaScript string is a sequence of UTF-16 code units; \<open>.length\<close> counts code units and
  \<open>.slice\<close> cuts between them. A string literal of the source is written with \<open>js\<close>.
\<close>

type_synonym jsstring = "16 word list"

definition js :: "string \<Rightarrow> jsstring" where
  "js s = map (\<lambda>c. of_nat (of_char c)) s"

text \<open>\<open>types\<close>: the two string enums and the chunk descriptor produced by the splitter.\<close>

datatype WhisperModel = Whisper1 | Gpt4oTranscribe

datatype ResponseFormat = Text | VerboseJson | Srt | Vtt

record AudioChunk =
  path :: jsstring
  index :: nat
  duration :: real

text \<open>
  What the catch clause reads of a thrown value: \<open>error?.status\<close> and \<open>error?.code\<close>, either
  of which may be undefined.
\<close>

record js_error =
  status :: "int option"
  code :: "jsstring option"
  message :: jsstring

text \<open>
  The SDK returns a plain string for the textual formats and an object with a \<open>text\<close> field
  otherwise.
\<close>

datatype transcription = PlainText jsstring | Structured jsstring

text \<open>The object literal handed to \<open>openai.audio.transcriptions.create\<close>.\<close>

record request =
  req_model :: WhisperModel
  req_file :: jsstring
  response_format :: ResponseFormat
  req_language :: "jsstring option"
  req_prompt :: "jsstring option"
  temperature :: nat

text \<open>
  The remote service is a parameter of the model: a function from the request and the state
  of the outside world to a returned transcription or a thrown error, and the next state of
  the world.
\<close>

type_synonym 'w client = "request \<Rightarrow> 'w \<Rightarrow> (js_error + transcription) \<times> 'w"

text \<open>
  The options object. The three exported functions receive one JavaScript object and each
  reads the properties it destructures; a property that is absent is \<open>None\<close>. The progress
  observer is a callback of the caller: it acts on the outside world and either returns
  (\<open>None\<close>) or throws (\<open>Some\<close> of the thrown value).
\<close>

record 'w options =
  model :: "WhisperModel option"
  language :: "jsstring option"
  prompt :: "jsstring option"
  initialPrompt :: "jsstring option"
  responseFormat :: "ResponseFormat option"
  onProgress :: "(nat \<Rightarrow> nat \<Rightarrow> 'w \<Rightarrow> js_error option \<times> 'w) option"

text \<open>
  Observable effects. One call of \<open>transcribeAudioFile\<close> issues requests (each recorded with
  the response it got) and sleeps; the pipeline makes such calls (each recorded with its
  arguments, its own effects and its outcome) and notifies the observer (each notification
  recorded with its two arguments and with what the observer threw, if it did). A sleep is recorded
  with its delay in milliseconds and leaves the world as it is. Console output is not
  recorded.
\<close>

datatype attempt_event = Request request "js_error + transcription" | Sleep nat

record 'w call =
  call_path :: jsstring
  call_options :: "'w options"
  call_attempts :: "attempt_event list"
  call_result :: "js_error + jsstring"

datatype 'w event = Call "'w call" | Progress nat nat "js_error option"

record transcribe_result =
  transcript :: jsstring
  chunksProcessed :: nat

section \<open>Retry policy\<close>

record retry_config =
  maxRetries :: nat
  initialDelayMs :: nat
  maxDelayMs :: nat

definition RETRY_CONFIG :: retry_config where
  "RETRY_CONFIG = \<lparr>maxRetries = 3, initialDelayMs = 1000, maxDelayMs = 10000\<rparr>"

text \<open>
  \<open>initialDelayMs * Math.pow(2, attempt)\<close> on an attempt index. The product is
  \<open>125 * 2 ^ (attempt + 3)\<close>, which a double holds exactly until it overflows to
  \<open>Infinity\<close>, where \<open>Math.min\<close> returns \<open>maxDelayMs\<close> as it does for every product above
  it; so the natural numbers give the value the source computes.
\<close>

definition getRetryDelay :: "nat \<Rightarrow> nat" where
  "getRetryDelay attempt =
     (let delay = initialDelayMs RETRY_CONFIG * 2 ^ attempt
      in min delay (maxDelayMs RETRY_CONFIG))"

definition new_Error :: "jsstring \<Rightarrow> js_error" where
  "new_Error msg = \<lparr>status = None, code = None, message = msg\<rparr>"

text \<open>\<open>typeof transcription === 'string' ? transcription : transcription.text\<close>\<close>

fun text_of :: "transcription \<Rightarrow> jsstring" where
  "text_of (PlainText s) = s"
| "text_of (Structured t) = t"

text \<open>\<open>error?.status >= 500 || error?.code === 'ECONNRESET' || error?.code === 'ETIMEDOUT'\<close>\<close>

definition isRetriable :: "js_error \<Rightarrow> bool" where
  "isRetriable error \<longleftrightarrow>
     (case status error of None \<Rightarrow> False | Some st \<Rightarrow> st \<ge> 500) \<or>
     code error = Some (js ''ECONNRESET'') \<or>
     code error = Some (js ''ETIMEDOUT'')"

text \<open>
  The \<open>for\<close> loop of \<open>transcribeAudioFile\<close>, from a given attempt index, with the last error
  caught so far and the effects so far. The final branch is the \<open>throw\<close> after the loop.
\<close>

function attempt_loop ::
  "'w client \<Rightarrow> request \<Rightarrow> nat \<Rightarrow> js_error option \<Rightarrow> attempt_event list \<Rightarrow> 'w
     \<Rightarrow> (js_error + jsstring) \<times> 'w \<times> attempt_event list" where
  "attempt_loop create req attempt lastError tr w =
     (if attempt < maxRetries RETRY_CONFIG then
        (case create req w of
           (Inr transcription, w') \<Rightarrow>
             (Inr (text_of transcription), w', tr @ [Request req (Inr transcription)])
         | (Inl error, w') \<Rightarrow>
             (if status error = Some 429 \<and> attempt < maxRetries RETRY_CONFIG - 1 then
                attempt_loop create req (attempt + 1) (Some error)
                  (tr @ [Request req (Inl error), Sleep (getRetryDelay attempt)]) w'
              else if isRetriable error \<and> attempt < maxRetries RETRY_CONFIG - 1 then
                attempt_loop create req (attempt + 1) (Some error)
                  (tr @ [Request req (Inl error), Sleep (getRetryDelay attempt)]) w'
              else (Inl error, w', tr @ [Request req (Inl error)])))
      else
        (Inl (case lastError of
                Some e \<Rightarrow> e
              | None \<Rightarrow> new_Error (js ''Transcription failed after retries'')),
         w, tr))"
  by pat_completeness auto
termination
  by (relation "measure (\<lambda>(create, req, attempt, lastError, tr, w).
        maxRetries RETRY_CONFIG - attempt)") auto

declare attempt_loop.simps [simp del]

definition mk_request :: "jsstring \<Rightarrow> 'w options \<Rightarrow> request" where
  "mk_request audioPath options =
     \<lparr>req_model = (case model options of None \<Rightarrow> Whisper1 | Some m \<Rightarrow> m),
      req_file = audioPath,
      response_format = (case responseFormat options of None \<Rightarrow> Text | Some f \<Rightarrow> f),
      req_language = language options,
      req_prompt = prompt options,
      temperature = 0\<rparr>"

definition transcribeAudioFile ::
  "'w client \<Rightarrow> jsstring \<Rightarrow> 'w options \<Rightarrow> 'w
     \<Rightarrow> (js_error + jsstring) \<times> 'w \<times> attempt_event list" where
  "transcribeAudioFile create audioPath options w =
     attempt_loop create (mk_request audioPath options) 0 None [] w"

section \<open>Chunk pipeline\<close>

definition ROLLING_PROMPT_LENGTH :: nat where
  "ROLLING_PROMPT_LENGTH = 1500"

text \<open>\<open>String.prototype.slice(start)\<close> with the end omitted.\<close>

definition slice :: "jsstring \<Rightarrow> int \<Rightarrow> jsstring" where
  "slice s start =
     (let len = int (length s);
          k = (if start < 0 then max (len + start) 0 else min start len)
      in drop (nat k) s)"

text \<open>\<open>Array.prototype.join\<close> on an array of strings.\<close>

fun join :: "jsstring list \<Rightarrow> jsstring \<Rightarrow> jsstring" where
  "join [] sep = []"
| "join [x] sep = x"
| "join (x # y # ys) sep = x @ sep @ join (y # ys) sep"

text \<open>\<open>rollingPrompt || undefined\<close>: the empty string is falsy.\<close>

definition or_undefined :: "jsstring \<Rightarrow> jsstring option" where
  "or_undefined s = (if s = [] then None else Some s)"

text \<open>
  The \<open>for\<close> loop of \<open>transcribeChunks\<close>, from index \<open>i\<close>, with the transcripts pushed so
  far, the current rolling prompt and the effects so far. A call that throws ends the loop
  with that error, and so does an observer that throws: neither is caught.
\<close>

function chunks_loop ::
  "'w client \<Rightarrow> AudioChunk list \<Rightarrow> WhisperModel \<Rightarrow> jsstring option \<Rightarrow> ResponseFormat
     \<Rightarrow> (nat \<Rightarrow> nat \<Rightarrow> 'w \<Rightarrow> js_error option \<times> 'w) option \<Rightarrow> nat \<Rightarrow> jsstring list
     \<Rightarrow> jsstring
     \<Rightarrow> 'w event list \<Rightarrow> 'w \<Rightarrow> (js_error + transcribe_result) \<times> 'w \<times> 'w event list" where
  "chunks_loop create chunks mdl lang fmt observer i transcripts rollingPrompt tr w =
     (if i < length chunks then
        (let chunk = chunks ! i;
             opts = \<lparr>model = Some mdl, language = lang, prompt = or_undefined rollingPrompt,
                     initialPrompt = None, responseFormat = Some fmt, onProgress = None\<rparr>
         in case transcribeAudioFile create (path chunk) opts w of
              (Inl error, w1, evs) \<Rightarrow>
                (Inl error, w1,
                 tr @ [Call \<lparr>call_path = path chunk, call_options = opts,
                              call_attempts = evs, call_result = Inl error\<rparr>])
            | (Inr t, w1, evs) \<Rightarrow>
                (let transcripts' = transcripts @ [t];
                     rollingPrompt' =
                       (if length t > ROLLING_PROMPT_LENGTH
                        then slice t (- int ROLLING_PROMPT_LENGTH) else t);
                     tr1 = tr @ [Call \<lparr>call_path = path chunk, call_options = opts,
                                        call_attempts = evs, call_result = Inr t\<rparr>]
                 in case observer of
                      Some notify \<Rightarrow>
                        (case notify (i + 1) (length chunks) w1 of
                           (Some thrown, w2) \<Rightarrow>
                             (Inl thrown, w2,
                              tr1 @ [Progress (i + 1) (length chunks) (Some thrown)])
                         | (None, w2) \<Rightarrow>
                             chunks_loop create chunks mdl lang fmt observer (i + 1)
                               transcripts' rollingPrompt'
                               (tr1 @ [Progress (i + 1) (length chunks) None]) w2)
                    | None \<Rightarrow>
                        chunks_loop create chunks mdl lang fmt observer (i + 1) transcripts'
                          rollingPrompt' tr1 w1))
      else
        (Inr \<lparr>transcript = join transcripts (js [CHR 0x0A, CHR 0x0A]),
              chunksProcessed = length chunks\<rparr>, w, tr))"
  by pat_completeness auto
termination
  by (relation "measure (\<lambda>(create, chunks, mdl, lang, fmt, observer, i, rest).
        length chunks - i)") auto

declare chunks_loop.simps [simp del]

definition transcribeChunks ::
  "'w client \<Rightarrow> AudioChunk list \<Rightarrow> 'w options \<Rightarrow> 'w
     \<Rightarrow> (js_error + transcribe_result) \<times> 'w \<times> 'w event list" where
  "transcribeChunks create chunks options w =
     chunks_loop create chunks
       (case model options of None \<Rightarrow> Whisper1 | Some m \<Rightarrow> m)
       (language options)
       (case responseFormat options of None \<Rightarrow> Text | Some f \<Rightarrow> f)
       (onProgress options)
       0 []
       (case initialPrompt options of None \<Rightarrow> [] | Some p \<Rightarrow> p)
       [] w"

text \<open>
  \<open>transcribeAudio\<close>. The body of its \<open>if\<close> is \<open>transcribeSingle\<close>; the condition
  \<open>!chunks || chunks.length === 0\<close> selects it when the list is undefined or empty. The
  options object is passed on unchanged on both paths.
\<close>

definition transcribeSingle ::
  "'w client \<Rightarrow> jsstring \<Rightarrow> 'w options \<Rightarrow> 'w
     \<Rightarrow> (js_error + transcribe_result) \<times> 'w \<times> 'w event list" where
  "transcribeSingle create audioPath options w =
     (case transcribeAudioFile create audioPath options w of
        (Inl error, w', evs) \<Rightarrow>
          (Inl error, w',
           [Call \<lparr>call_path = audioPath, call_options = options,
                  call_attempts = evs, call_result = Inl error\<rparr>])
      | (Inr t, w', evs) \<Rightarrow>
          (Inr \<lparr>transcript = t, chunksProcessed = 1\<rparr>, w',
           [Call \<lparr>call_path = audioPath, call_options = options,
                  call_attempts = evs, call_result = Inr t\<rparr>]))"

definition transcribeAudio ::
  "'w client \<Rightarrow> jsstring \<Rightarrow> AudioChunk list option \<Rightarrow> 'w options \<Rightarrow> 'w
     \<Rightarrow> (js_error + transcribe_result) \<times> 'w \<times> 'w event list" where
  "transcribeAudio create audioPath chunks options w =
     (case chunks of
        None \<Rightarrow> transcribeSingle create audioPath options w
      | Some cs \<Rightarrow>
          if length cs = 0 then transcribeSingle create audioPath options w
          else transcribeChunks create cs options w)"

section \<open>Reading a trace\<close>

fun calls :: "'w event list \<Rightarrow> 'w call list" where
  "calls [] = []"
| "calls (Call c # es) = c # calls es"
| "calls (Progress k n out # es) = calls es"

fun requests :: "attempt_event list \<Rightarrow> request list" where
  "requests [] = []"
| "requests (Request rq resp # es) = rq # requests es"
| "requests (Sleep ms # es) = requests es"

fun sleeps :: "attempt_event list \<Rightarrow> nat list" where
  "sleeps [] = []"
| "sleeps (Request rq resp # es) = sleeps es"
| "sleeps (Sleep ms # es) = ms # sleeps es"

text \<open>What the observer threw during a run.\<close>

fun thrown_by_observer :: "'w event list \<Rightarrow> js_error list" where
  "thrown_by_observer [] = []"
| "thrown_by_observer (Call c # es) = thrown_by_observer es"
| "thrown_by_observer (Progress k n None # es) = thrown_by_observer es"
| "thrown_by_observer (Progress k n (Some e) # es) = e # thrown_by_observer es"

fun outputs :: "'w call list \<Rightarrow> jsstring list" where
  "outputs [] = []"
| "outputs (c # cs) = (case call_result c of Inl e \<Rightarrow> outputs cs | Inr t \<Rightarrow> t # outputs cs)"

section \<open>Shape of a pipeline run\<close>

text \<open>
  The options object that \<open>transcribeChunks\<close> builds for each call, and two predicates used
  to describe a run: a call is \<open>settled\<close> when it issued between one and three copies of
  its request and returned what the last response gave; a list of calls is \<open>chained\<close> to a
  chunk list and a starting hint when each call targets the next chunk, carries the hint
  derived from the previous output, and nothing follows a failed call.
\<close>

definition chunk_options :: "WhisperModel \<Rightarrow> jsstring option \<Rightarrow> ResponseFormat \<Rightarrow> jsstring \<Rightarrow> 'w options" where
  "chunk_options mdl lang fmt rollingPrompt =
     \<lparr>model = Some mdl, language = lang, prompt = or_undefined rollingPrompt,
      initialPrompt = None, responseFormat = Some fmt, onProgress = None\<rparr>"

definition settled :: "'w call \<Rightarrow> bool" where
  "settled c \<longleftrightarrow>
     requests (call_attempts c) \<noteq> [] \<and>
     set (requests (call_attempts c)) \<subseteq> {mk_request (call_path c) (call_options c)} \<and>
     length (requests (call_attempts c)) \<le> 3 \<and>
     (\<exists>resp. call_attempts c \<noteq> [] \<and>
        last (call_attempts c) = Request (mk_request (call_path c) (call_options c)) resp \<and>
        call_result c = map_sum id text_of resp)"

fun chained :: "AudioChunk list \<Rightarrow> jsstring \<Rightarrow> 'w call list \<Rightarrow> bool" where
  "chained cks rp [] = True"
| "chained [] rp (c # cs) = False"
| "chained (ck # cks) rp (c # cs) =
     (call_path c = path ck \<and> prompt (call_options c) = or_undefined rp \<and> settled c \<and>
      (case call_result c of
         Inl e \<Rightarrow> cs = []
       | Inr t \<Rightarrow> chained cks (drop (length t - 1500) t) cs))"

section \<open>A substitute client and the example scenario\<close>

text \<open>
  A scripted client answers the n-th request it receives with the n-th response of a list;
  its world is the number of requests seen so far. The scenario is the three-segment example
  of the specification.
\<close>

definition scripted :: "(js_error + transcription) list \<Rightarrow> nat client" where
  "scripted responses rq n =
     (if n < length responses then responses ! n
      else Inl (new_Error (js ''unscripted request'')), n + 1)"

definition no_options :: "'w options" where
  "no_options = \<lparr>model = None, language = None, prompt = None, initialPrompt = None,
      responseFormat = None, onProgress = None\<rparr>"

definition scenario_chunks :: "AudioChunk list" where
  "scenario_chunks =
     [\<lparr>path = js ''chunk_000.mp3'', index = 0, duration = 480\<rparr>,
      \<lparr>path = js ''chunk_001.mp3'', index = 1, duration = 480\<rparr>,
      \<lparr>path = js ''chunk_002.mp3'', index = 2, duration = 125\<rparr>]"

definition scenario_responses :: "(js_error + transcription) list" where
  "scenario_responses =
     [Inr (PlainText (js ''Hello world.'')),
      Inr (PlainText (js ''This is segment two.'')),
      Inr (PlainText (js ''Final segment here.''))]"

definition rate_limited :: js_error where
  "rate_limited = \<lparr>status = Some 429, code = None, message = js ''Rate limit reached''\<rparr>"

definition unauthorized :: js_error where
  "unauthorized = \<lparr>status = Some 401, code = None, message = js ''Incorrect API key''\<rparr>"

definition server_fault :: js_error where
  "server_fault = \<lparr>status = Some 503, code = None, message = js ''Service unavailable''\<rparr>"

definition connection_reset :: js_error where
  "connection_reset = \<lparr>status = None, code = Some (js ''ECONNRESET''), message = js ''socket hang up''\<rparr>"

definition text_request :: "jsstring \<Rightarrow> jsstring option \<Rightarrow> request" where
  "text_request p hint =
     \<lparr>req_model = Whisper1, req_file = p, response_format = Text, req_language = None,
      req_prompt = hint, temperature = 0\<rparr>"

definition chunk_call :: "jsstring \<Rightarrow> jsstring option \<Rightarrow> attempt_event list \<Rightarrow> js_error + jsstring \<Rightarrow> 'w call" where
  "chunk_call p hint evs res =
     \<lparr>call_path = p,
      call_options = \<lparr>model = Some Whisper1, language = None, prompt = hint,
         initialPrompt = None, responseFormat = Some Text, onProgress = None\<rparr>,
      call_attempts = evs, call_result = res\<rparr>"

text \<open>The traces of the runs that are evaluated below.\<close>

definition scenario_trace :: "nat event list" where
  "scenario_trace =
     [Call (chunk_call (js ''chunk_000.mp3'') None
        [Request (text_request (js ''chunk_000.mp3'') None)
           (Inr (PlainText (js ''Hello world.'')))]
        (Inr (js ''Hello world.''))),
      Call (chunk_call (js ''chunk_001.mp3'') (Some (js ''Hello world.''))
        [Request (text_request (js ''chunk_001.mp3'') (Some (js ''Hello world.'')))
           (Inr (PlainText (js ''This is segment two.'')))]
        (Inr (js ''This is segment two.''))),
      Call (chunk_call (js ''chunk_002.mp3'') (Some (js ''This is segment two.''))
        [Request (text_request (js ''chunk_002.mp3'') (Some (js ''This is segment two.'')))
           (Inr (PlainText (js ''Final segment here.'')))]
        (Inr (js ''Final segment here.'')))]"

definition scenario_result :: transcribe_result where
  "scenario_result =
     \<lparr>transcript =
        js (''Hello world.'' @ [CHR 0x0A, CHR 0x0A] @ ''This is segment two.'' @
            [CHR 0x0A, CHR 0x0A] @ ''Final segment here.''),
      chunksProcessed = 3\<rparr>"

definition aborted_trace :: "nat event list" where
  "aborted_trace =
     [Call (chunk_call (js ''chunk_000.mp3'') None
        [Request (text_request (js ''chunk_000.mp3'') None)
           (Inr (PlainText (js ''Hello world.'')))]
        (Inr (js ''Hello world.''))),
      Call (chunk_call (js ''chunk_001.mp3'') (Some (js ''Hello world.''))
        [Request (text_request (js ''chunk_001.mp3'') (Some (js ''Hello world.'')))
           (Inl unauthorized)]
        (Inl unauthorized))]"

definition exhausted_trace :: "nat event list" where
  "exhausted_trace =
     [Call (chunk_call (js ''chunk_000.mp3'') None
        [Request (text_request (js ''chunk_000.mp3'') None)
           (Inr (PlainText (js ''Hello world.'')))]
        (Inr (js ''Hello world.''))),
      Call (chunk_call (js ''chunk_001.mp3'') (Some (js ''Hello world.''))
        [Request (text_request (js ''chunk_001.mp3'') (Some (js ''Hello world.'')))
           (Inl rate_limited), Sleep 1000,
         Request (text_request (js ''chunk_001.mp3'') (Some (js ''Hello world.'')))
           (Inl rate_limited), Sleep 2000,
         Request (text_request (js ''chunk_001.mp3'') (Some (js ''Hello world.'')))
           (Inl rate_limited)]
        (Inl rate_limited))]"

definition long_trace :: "nat event list" where
  "long_trace =
     [Call (chunk_call (js ''chunk_000.mp3'') (Some (js ''Names: Ada, Grace.''))
        [Request (text_request (js ''chunk_000.mp3'') (Some (js ''Names: Ada, Grace.'')))
           (Inr (PlainText (98 # replicate 1500 97)))]
        (Inr (98 # replicate 1500 97))),
      Call (chunk_call (js ''chunk_001.mp3'') (Some (replicate 1500 97))
        [Request (text_request (js ''chunk_001.mp3'') (Some (replicate 1500 97)))
           (Inr (PlainText (js ''ok'')))]
        (Inr (js ''ok'')))]"

text \<open>
  Two observers, and the traces of the scenario run under each: one that always returns, and
  one that throws when it is told that the last chunk is done.
\<close>

definition observer_error :: js_error where
  "observer_error = \<lparr>status = None, code = None, message = js ''observer failed''\<rparr>"

definition quiet_observer :: "nat \<Rightarrow> nat \<Rightarrow> nat \<Rightarrow> js_error option \<times> nat" where
  "quiet_observer k n v = (None, v)"

definition failing_observer :: "nat \<Rightarrow> nat \<Rightarrow> nat \<Rightarrow> js_error option \<times> nat" where
  "failing_observer k n v = (if k = n then Some observer_error else None, v)"

definition first_call :: "nat call" where
  "first_call =
     chunk_call (js ''chunk_000.mp3'') None
       [Request (text_request (js ''chunk_000.mp3'') None)
          (Inr (PlainText (js ''Hello world.'')))]
       (Inr (js ''Hello world.''))"

definition second_call :: "nat call" where
  "second_call =
     chunk_call (js ''chunk_001.mp3'') (Some (js ''Hello world.''))
       [Request (text_request (js ''chunk_001.mp3'') (Some (js ''Hello world.'')))
          (Inr (PlainText (js ''This is segment two.'')))]
       (Inr (js ''This is segment two.''))"

definition third_call :: "nat call" where
  "third_call =
     chunk_call (js ''chunk_002.mp3'') (Some (js ''This is segment two.''))
       [Request (text_request (js ''chunk_002.mp3'') (Some (js ''This is segment two.'')))
          (Inr (PlainText (js ''Final segment here.'')))]
       (Inr (js ''Final segment here.''))"

definition observed_trace :: "nat event list" where
  "observed_trace =
     [Call first_call, Progress 1 3 None,
      Call second_call, Progress 2 3 None,
      Call third_call, Progress 3 3 None]"

definition rejected_trace :: "nat event list" where
  "rejected_trace =
     [Call first_call, Progress 1 3 None,
      Call second_call, Progress 2 3 None,
      Call third_call, Progress 3 3 (Some observer_error)]"

section \<open>Lemmas about the retry loop\<close>

lemma maxRetries_eq: "maxRetries RETRY_CONFIG = 3"
  by (simp add: RETRY_CONFIG_def)

lemma attempt_loop_success:
  "attempt < 3 \<Longrightarrow> create req w = (Inr t, w1) \<Longrightarrow>
   attempt_loop create req attempt le tr w = (Inr (text_of t), w1, tr @ [Request req (Inr t)])"
  by (subst attempt_loop.simps) (simp add: maxRetries_eq)

lemma attempt_loop_retry:
  "attempt + 1 < 3 \<Longrightarrow> create req w = (Inl e, w1) \<Longrightarrow> status e = Some 429 \<or> isRetriable e \<Longrightarrow>
   attempt_loop create req attempt le tr w =
   attempt_loop create req (attempt + 1) (Some e)
     (tr @ [Request req (Inl e), Sleep (getRetryDelay attempt)]) w1"
  by (subst attempt_loop.simps) (auto simp add: maxRetries_eq)

lemma attempt_loop_throw:
  "attempt < 3 \<Longrightarrow> create req w = (Inl e, w1) \<Longrightarrow>
   attempt + 1 = 3 \<or> (status e \<noteq> Some 429 \<and> \<not> isRetriable e) \<Longrightarrow>
   attempt_loop create req attempt le tr w = (Inl e, w1, tr @ [Request req (Inl e)])"
  by (subst attempt_loop.simps) (auto simp add: maxRetries_eq)

lemma requests_append: "requests (xs @ ys) = requests xs @ requests ys"
  by (induction xs rule: requests.induct) simp_all

lemma sleeps_append: "sleeps (xs @ ys) = sleeps xs @ sleeps ys"
  by (induction xs rule: sleeps.induct) simp_all

lemma attempt_loop_trace:
  "attempt_loop create req attempt le tr w = (r, w', tr') \<Longrightarrow> attempt < 3 \<Longrightarrow>
   \<exists>new resp. tr' = tr @ new @ [Request req resp] \<and>
     set (requests new) \<subseteq> {req} \<and>
     length (requests new) < 3 - attempt \<and>
     sleeps (new @ [Request req resp]) = map getRetryDelay [attempt..<attempt + length (requests new)] \<and>
     r = map_sum id text_of resp"
proof (induction n \<equiv> "3 - attempt" arbitrary: attempt le tr w)
  case 0
  then show ?case by simp
next
  case (Suc n)
  obtain resp w1 where c: "create req w = (resp, w1)" by (cases "create req w")
  show ?case
  proof (cases resp)
    case (Inr t)
    with c Suc.prems have "(r, w', tr') = (Inr (text_of t), w1, tr @ [Request req (Inr t)])"
      by (simp add: attempt_loop_success)
    then have "tr' = tr @ [] @ [Request req (Inr t)] \<and> set (requests []) \<subseteq> {req} \<and>
        length (requests []) < 3 - attempt \<and>
        sleeps ([] @ [Request req (Inr t)]) = map getRetryDelay [attempt..<attempt + length (requests [])] \<and>
        r = map_sum id text_of (Inr t)"
      using Suc.prems by simp
    then show ?thesis by blast
  next
    case (Inl e)
    show ?thesis
    proof (cases "attempt + 1 < 3 \<and> (status e = Some 429 \<or> isRetriable e)")
      case True
      let ?pre = "[Request req (Inl e), Sleep (getRetryDelay attempt)]"
      from True c Inl have step: "attempt_loop create req attempt le tr w =
          attempt_loop create req (attempt + 1) (Some e) (tr @ ?pre) w1"
        by (simp add: attempt_loop_retry)
      from Suc.hyps(2) have n: "n = 3 - (attempt + 1)" by simp
      from True have lt: "attempt + 1 < 3" by simp
      from step Suc.prems(1)
      have run: "attempt_loop create req (attempt + 1) (Some e) (tr @ ?pre) w1 = (r, w', tr')" 
        by simp
      from Suc.hyps(1)[OF n run lt] obtain new resp' where
        h: "tr' = (tr @ ?pre) @ new @ [Request req resp']"
           "set (requests new) \<subseteq> {req}"
           "length (requests new) < 3 - (attempt + 1)"
           "sleeps (new @ [Request req resp']) =
              map getRetryDelay [attempt + 1..<attempt + 1 + length (requests new)]"
           "r = map_sum id text_of resp'"
        by blast
      have "tr' = tr @ (?pre @ new) @ [Request req resp']"
        using h(1) by simp
      moreover have "set (requests (?pre @ new)) \<subseteq> {req}"
        using h(2) by simp
      moreover have "length (requests (?pre @ new)) < 3 - attempt"
        using h(3) by simp
      moreover have "sleeps ((?pre @ new) @ [Request req resp']) =
          map getRetryDelay [attempt..<attempt + length (requests (?pre @ new))]"
      proof -
        have "[attempt..<attempt + Suc (length (requests new))] =
            attempt # [attempt + 1..<attempt + 1 + length (requests new)]"
          by (subst upt_rec) simp
        then show ?thesis using h(4) by (simp add: sleeps_append)
      qed
      ultimately show ?thesis using h(5) by blast
    next
      case False
      with c Inl Suc.prems have "(r, w', tr') = (Inl e, w1, tr @ [Request req (Inl e)])"
        using attempt_loop_throw[of attempt create req w e w1 le tr] by auto
      then have "tr' = tr @ [] @ [Request req (Inl e)] \<and> set (requests []) \<subseteq> {req} \<and>
        length (requests []) < 3 - attempt \<and>
        sleeps ([] @ [Request req (Inl e)]) = map getRetryDelay [attempt..<attempt + length (requests [])] \<and>
        r = map_sum id text_of (Inl e)"
        using Suc.prems by simp
      then show ?thesis by blast
    qed
  qed
qed

lemma attempt_loop_first_request:
  assumes "attempt < 3"
  shows "\<exists>rest. snd (snd (attempt_loop create req attempt le tr w)) =
           tr @ [Request req (fst (create req w))] @ rest"
proof -
  obtain r w' tr' where run: "attempt_loop create req attempt le tr w = (r, w', tr')"
    by (cases "attempt_loop create req attempt le tr w") auto
  obtain resp w1 where c: "create req w = (resp, w1)" by (cases "create req w")
  show ?thesis
  proof (cases "\<exists>e. resp = Inl e \<and> attempt + 1 < 3 \<and> (status e = Some 429 \<or> isRetriable e)")
    case True
    then obtain e where e: "resp = Inl e" "attempt + 1 < 3" "status e = Some 429 \<or> isRetriable e"
      by blast
    let ?pre = "[Request req (Inl e), Sleep (getRetryDelay attempt)]"
    from attempt_loop_retry[where attempt=attempt and create=create and req=req and w=w
        and e=e and ?w1.0=w1 and le=le and tr=tr] e c run
    have "attempt_loop create req (attempt + 1) (Some e) (tr @ ?pre) w1 = (r, w', tr')"
      by simp
    from attempt_loop_trace[OF this e(2)] obtain new resp' where
      "tr' = (tr @ ?pre) @ new @ [Request req resp']" by blast
    then have "tr' = tr @ [Request req (Inl e)] @ (Sleep (getRetryDelay attempt) # new @ [Request req resp'])"
      by simp
    with run c e(1) show ?thesis by auto
  next
    case False
    show ?thesis
    proof (cases resp)
      case (Inl e)
      with False have "attempt + 1 = 3 \<or> (status e \<noteq> Some 429 \<and> \<not> isRetriable e)"
        using assms by auto
      with attempt_loop_throw[where attempt=attempt and create=create and req=req and w=w
        and e=e and ?w1.0=w1 and le=le and tr=tr] assms c Inl
      show ?thesis by simp
    next
      case (Inr t)
      from attempt_loop_success[where attempt=attempt and create=create and req=req and w=w
        and t=t and ?w1.0=w1 and le=le and tr=tr] assms c Inr
      show ?thesis by simp
    qed
  qed
qed

lemma delay0: "getRetryDelay 0 = 1000" and delay1: "getRetryDelay 1 = 2000"
  by (simp_all add: getRetryDelay_def RETRY_CONFIG_def)

lemma two_rate_limits:
  assumes "create rq w0 = (Inl e1, w1)" and "status e1 = Some 429"
    and "create rq w1 = (Inl e2, w2)" and "status e2 = Some 429"
  shows "attempt_loop create rq 0 None [] w0 =
    attempt_loop create rq 2 (Some e2)
      [Request rq (Inl e1), Sleep 1000, Request rq (Inl e2), Sleep 2000] w2"
proof -
  have "attempt_loop create rq 0 None [] w0 =
      attempt_loop create rq (0 + 1) (Some e1)
        ([] @ [Request rq (Inl e1), Sleep (getRetryDelay 0)]) w1"
    using attempt_loop_retry[where attempt=0 and create=create and req=rq and w=w0
        and e=e1 and ?w1.0=w1 and le=None and tr="[]"] assms(1,2)
    by simp
  also have "\<dots> = attempt_loop create rq 1 (Some e1) [Request rq (Inl e1), Sleep 1000] w1"
    by (simp add: delay0)
  also have "\<dots> = attempt_loop create rq (1 + 1) (Some e2)
      ([Request rq (Inl e1), Sleep 1000] @ [Request rq (Inl e2), Sleep (getRetryDelay 1)]) w2"
    using attempt_loop_retry[where attempt=1 and create=create and req=rq and w=w1
        and e=e2 and ?w1.0=w2 and le="Some e1" and tr="[Request rq (Inl e1), Sleep 1000]"]
      assms(3,4)
    by simp
  also have "\<dots> = attempt_loop create rq 2 (Some e2)
      [Request rq (Inl e1), Sleep 1000, Request rq (Inl e2), Sleep 2000] w2"
    using delay1 by (simp add: numeral_2_eq_2)
  finally show ?thesis .
qed

section \<open>Lemmas about the chunk loop\<close>

lemma calls_append: "calls (xs @ ys) = calls xs @ calls ys"
  by (induction xs rule: calls.induct) simp_all

lemma rolling_eq:
  "(if length t > ROLLING_PROMPT_LENGTH then slice t (- int ROLLING_PROMPT_LENGTH) else t) =
   drop (length t - 1500) t"
  by (simp add: ROLLING_PROMPT_LENGTH_def slice_def Let_def nat_diff_distrib')

lemma transcribeAudioFile_settled:
  assumes "transcribeAudioFile create p opts w = (r, w', evs)"
  shows "settled \<lparr>call_path = p, call_options = opts, call_attempts = evs, call_result = r\<rparr>"
proof -
  from assms have "attempt_loop create (mk_request p opts) 0 None [] w = (r, w', evs)"
    by (simp add: transcribeAudioFile_def)
  from attempt_loop_trace[OF this] obtain new resp where
    h: "evs = [] @ new @ [Request (mk_request p opts) resp]"
       "set (requests new) \<subseteq> {mk_request p opts}" "length (requests new) < 3 - 0"
       "r = map_sum id text_of resp"
    by auto
  then show ?thesis by (auto simp: settled_def requests_append)
qed

lemma chunks_loop_done:
  "\<not> i < length chunks \<Longrightarrow>
   chunks_loop create chunks mdl lang fmt obs i ts rp tr w =
   (Inr \<lparr>transcript = join ts (js [CHR 0x0A, CHR 0x0A]), chunksProcessed = length chunks\<rparr>, w, tr)"
  by (subst chunks_loop.simps) simp

lemma chunks_loop_fail:
  "i < length chunks \<Longrightarrow>
   transcribeAudioFile create (path (chunks ! i)) (chunk_options mdl lang fmt rp) w = (Inl e, w1, evs) \<Longrightarrow>
   chunks_loop create chunks mdl lang fmt obs i ts rp tr w =
   (Inl e, w1, tr @ [Call \<lparr>call_path = path (chunks ! i), call_options = chunk_options mdl lang fmt rp,
                           call_attempts = evs, call_result = Inl e\<rparr>])"
  by (subst chunks_loop.simps) (simp add: chunk_options_def Let_def)

lemma thrown_append:
  "thrown_by_observer (xs @ ys) = thrown_by_observer xs @ thrown_by_observer ys"
  by (induction xs rule: thrown_by_observer.induct) simp_all

lemma chunks_loop_step:
  assumes "i < length chunks"
    and "transcribeAudioFile create (path (chunks ! i)) (chunk_options mdl lang fmt rp) w =
           (Inr t, w1, evs)"
  shows "(\<exists>w2 ps. calls ps = [] \<and> thrown_by_observer ps = [] \<and>
       chunks_loop create chunks mdl lang fmt obs i ts rp tr w =
       chunks_loop create chunks mdl lang fmt obs (i + 1) (ts @ [t]) (drop (length t - 1500) t)
         (tr @ [Call \<lparr>call_path = path (chunks ! i),
                       call_options = chunk_options mdl lang fmt rp,
                       call_attempts = evs, call_result = Inr t\<rparr>] @ ps) w2) \<or>
     (\<exists>x w2. chunks_loop create chunks mdl lang fmt obs i ts rp tr w =
       (Inl x, w2,
        tr @ [Call \<lparr>call_path = path (chunks ! i),
                      call_options = chunk_options mdl lang fmt rp,
                      call_attempts = evs, call_result = Inr t\<rparr>,
              Progress (i + 1) (length chunks) (Some x)]))"
proof (cases obs)
  case None
  let ?c = "\<lparr>call_path = path (chunks ! i), call_options = chunk_options mdl lang fmt rp,
              call_attempts = evs, call_result = Inr t\<rparr> :: 'a call"
  from assms None
  have "calls [] = ([]::'a call list) \<and> thrown_by_observer ([]::'a event list) = [] \<and>
     chunks_loop create chunks mdl lang fmt obs i ts rp tr w =
     chunks_loop create chunks mdl lang fmt obs (i + 1) (ts @ [t]) (drop (length t - 1500) t)
       (tr @ [Call ?c] @ []) w1"
    by (subst chunks_loop.simps)
       (simp add: chunk_options_def Let_def rolling_eq del: One_nat_def)
  then show ?thesis by blast
next
  case (Some notify)
  let ?c = "\<lparr>call_path = path (chunks ! i), call_options = chunk_options mdl lang fmt rp,
              call_attempts = evs, call_result = Inr t\<rparr> :: 'a call"
  obtain out w2 where n: "notify (i + 1) (length chunks) w1 = (out, w2)"
    by (cases "notify (i + 1) (length chunks) w1")
  show ?thesis
  proof (cases out)
    case None
    from assms Some n None
    have "calls [Progress (i + 1) (length chunks) None] = ([]::'a call list) \<and>
       thrown_by_observer ([Progress (i + 1) (length chunks) None]::'a event list) = [] \<and>
       chunks_loop create chunks mdl lang fmt obs i ts rp tr w =
       chunks_loop create chunks mdl lang fmt obs (i + 1) (ts @ [t]) (drop (length t - 1500) t)
         (tr @ [Call ?c] @ [Progress (i + 1) (length chunks) None]) w2"
      by (subst chunks_loop.simps)
         (simp add: chunk_options_def Let_def rolling_eq del: One_nat_def)
    then show ?thesis by blast
  next
    case (Some x)
    from assms \<open>obs = Some notify\<close> n Some
    have "chunks_loop create chunks mdl lang fmt obs i ts rp tr w =
       (Inl x, w2, tr @ [Call ?c, Progress (i + 1) (length chunks) (Some x)])"
      by (subst chunks_loop.simps)
         (simp add: chunk_options_def Let_def rolling_eq del: One_nat_def)
    then show ?thesis by blast
  qed
qed

text \<open>
  The shape of every run of the loop. When it fails, either the last call failed with that
  error and is the last event, or every call succeeded and the observer threw that error.
\<close>

lemma chunks_loop_calls:
  "chunks_loop create chunks mdl lang fmt obs i ts rp tr w = (r, w', tr') \<Longrightarrow>
   \<exists>cs. calls tr' = calls tr @ cs \<and> chained (drop i chunks) rp cs \<and>
     (case r of
        Inl e \<Rightarrow> cs \<noteq> [] \<and> tr' \<noteq> [] \<and>
          (call_result (last cs) = Inl e \<and> last tr' = Call (last cs) \<or>
           (\<exists>outs. map call_result cs = map Inr outs) \<and>
             thrown_by_observer tr' = thrown_by_observer tr @ [e])
      | Inr res \<Rightarrow>
          (\<exists>outs. map call_result cs = map Inr outs \<and> length outs = length chunks - i \<and>
             transcript res = join (ts @ outs) (js [CHR 0x0A, CHR 0x0A])) \<and>
          chunksProcessed res = length chunks)"
proof (induction n \<equiv> "length chunks - i" arbitrary: i ts rp tr w)
  case 0
  then have ge: "\<not> i < length chunks" by simp
  with 0 have r: "r = Inr \<lparr>transcript = join ts (js [CHR 0x0A, CHR 0x0A]),
                              chunksProcessed = length chunks\<rparr>"
      and tr': "tr' = tr"
    by (simp_all add: chunks_loop_done)
  from ge have "drop i chunks = []" by simp
  with r tr' ge have "calls tr' = calls tr @ [] \<and> chained (drop i chunks) rp [] \<and>
     (case r of
        Inl e \<Rightarrow> [] \<noteq> [] \<and> tr' \<noteq> [] \<and>
          (call_result (last []) = Inl e \<and> last tr' = Call (last []) \<or>
           (\<exists>outs. map call_result [] = map Inr outs) \<and>
             thrown_by_observer tr' = thrown_by_observer tr @ [e])
      | Inr res \<Rightarrow>
          (\<exists>outs. map call_result [] = map Inr outs \<and> length outs = length chunks - i \<and>
             transcript res = join (ts @ outs) (js [CHR 0x0A, CHR 0x0A])) \<and>
          chunksProcessed res = length chunks)"
    by simp
  then show ?case by blast
next
  case (Suc n)
  then have lt: "i < length chunks" by simp
  then have dr: "drop i chunks = chunks ! i # drop (i + 1) chunks"
    by (simp add: Cons_nth_drop_Suc)
  let ?opts = "chunk_options mdl lang fmt rp :: 'a options"
  obtain res w1 evs where
    call: "transcribeAudioFile create (path (chunks ! i)) ?opts w = (res, w1, evs)"
    by (cases "transcribeAudioFile create (path (chunks ! i)) ?opts w") auto
  note rq = transcribeAudioFile_settled[OF call]
  show ?case
  proof (cases res)
    case (Inl e)
    let ?c = "\<lparr>call_path = path (chunks ! i), call_options = ?opts,
                call_attempts = evs, call_result = Inl e\<rparr>"
    from chunks_loop_fail[OF lt call[unfolded Inl]] Suc.prems
    have r: "r = Inl e" and tr': "tr' = tr @ [Call ?c]"
      by simp_all
    have "calls tr' = calls tr @ [?c]" using tr' by (simp add: calls_append)
    moreover have "chained (drop i chunks) rp [?c]"
      using rq by (simp add: dr chunk_options_def Inl)
    moreover have "[?c] \<noteq> [] \<and> tr' \<noteq> [] \<and>
        (call_result (last [?c]) = Inl e \<and> last tr' = Call (last [?c]) \<or>
         (\<exists>outs. map call_result [?c] = map Inr outs) \<and>
           thrown_by_observer tr' = thrown_by_observer tr @ [e])"
      using tr' by simp
    ultimately show ?thesis unfolding r by (intro exI[of _ "[?c]"]) simp
  next
    case (Inr t)
    let ?c = "\<lparr>call_path = path (chunks ! i), call_options = ?opts,
                call_attempts = evs, call_result = Inr t\<rparr>"
    have ch1: "chained (drop i chunks) rp [?c]"
      using rq by (simp add: dr chunk_options_def Inr)
    from chunks_loop_step[OF lt call[unfolded Inr], of obs ts tr]
    consider (go) w2 ps where "calls ps = []" "thrown_by_observer ps = []"
        "chunks_loop create chunks mdl lang fmt obs i ts rp tr w =
         chunks_loop create chunks mdl lang fmt obs (i + 1) (ts @ [t])
           (drop (length t - 1500) t) (tr @ [Call ?c] @ ps) w2"
      | (stop) x w2 where "chunks_loop create chunks mdl lang fmt obs i ts rp tr w =
         (Inl x, w2, tr @ [Call ?c, Progress (i + 1) (length chunks) (Some x)])"
      by blast
    then show ?thesis
    proof cases
      case stop
      with Suc.prems have r: "r = Inl x"
        and tr': "tr' = tr @ [Call ?c, Progress (i + 1) (length chunks) (Some x)]"
        by simp_all
      have "calls tr' = calls tr @ [?c]" using tr' by (simp add: calls_append)
      moreover have "map call_result [?c] = map Inr [t]" by simp
      then have "\<exists>outs. map call_result [?c] = map Inr outs" by (rule exI)
      then have "[?c] \<noteq> [] \<and> tr' \<noteq> [] \<and>
          (call_result (last [?c]) = Inl x \<and> last tr' = Call (last [?c]) \<or>
           (\<exists>outs. map call_result [?c] = map Inr outs) \<and>
             thrown_by_observer tr' = thrown_by_observer tr @ [x])"
        using tr' by (simp add: thrown_append del: list.map)
      ultimately show ?thesis using ch1 unfolding r by (intro exI[of _ "[?c]"]) simp
    next
      case go
      note ps = go(1) and quiet = go(2) and step = go(3)
      from Suc.hyps(2) have n: "n = length chunks - (i + 1)" by simp
      from step Suc.prems have run:
        "chunks_loop create chunks mdl lang fmt obs (i + 1) (ts @ [t]) (drop (length t - 1500) t)
            (tr @ [Call ?c] @ ps) w2 = (r, w', tr')"
        by simp
      from Suc.hyps(1)[OF n run] obtain cs where
        h: "calls tr' = calls (tr @ [Call ?c] @ ps) @ cs"
           "chained (drop (i + 1) chunks) (drop (length t - 1500) t) cs"
           "(case r of
              Inl e \<Rightarrow> cs \<noteq> [] \<and> tr' \<noteq> [] \<and>
                (call_result (last cs) = Inl e \<and> last tr' = Call (last cs) \<or>
                 (\<exists>outs. map call_result cs = map Inr outs) \<and>
                   thrown_by_observer tr' = thrown_by_observer (tr @ [Call ?c] @ ps) @ [e])
            | Inr res \<Rightarrow>
                (\<exists>outs. map call_result cs = map Inr outs \<and>
                   length outs = length chunks - (i + 1) \<and>
                   transcript res = join ((ts @ [t]) @ outs) (js [CHR 0x0A, CHR 0x0A])) \<and>
                chunksProcessed res = length chunks)"
        by blast
      have a: "calls tr' = calls tr @ (?c # cs)"
        using h(1) ps by (simp add: calls_append)
      have b: "chained (drop i chunks) rp (?c # cs)"
        using rq h(2) by (simp add: dr chunk_options_def Inr)
      have th: "thrown_by_observer (tr @ [Call ?c] @ ps) = thrown_by_observer tr"
        using quiet by (simp add: thrown_append)
      have c: "(case r of
          Inl e \<Rightarrow> ?c # cs \<noteq> [] \<and> tr' \<noteq> [] \<and>
            (call_result (last (?c # cs)) = Inl e \<and> last tr' = Call (last (?c # cs)) \<or>
             (\<exists>outs. map call_result (?c # cs) = map Inr outs) \<and>
               thrown_by_observer tr' = thrown_by_observer tr @ [e])
        | Inr res \<Rightarrow>
            (\<exists>outs. map call_result (?c # cs) = map Inr outs \<and>
               length outs = length chunks - i \<and>
               transcript res = join (ts @ outs) (js [CHR 0x0A, CHR 0x0A])) \<and>
            chunksProcessed res = length chunks)"
      proof (cases r)
        case (Inl e)
        with h(3) have ne: "cs \<noteq> []" "tr' \<noteq> []"
          and d: "call_result (last cs) = Inl e \<and> last tr' = Call (last cs) \<or>
             (\<exists>outs. map call_result cs = map Inr outs) \<and>
               thrown_by_observer tr' = thrown_by_observer tr @ [e]"
          unfolding th by simp_all
        from d have "call_result (last (?c # cs)) = Inl e \<and> last tr' = Call (last (?c # cs)) \<or>
             (\<exists>outs. map call_result (?c # cs) = map Inr outs) \<and>
               thrown_by_observer tr' = thrown_by_observer tr @ [e]"
        proof
          assume "call_result (last cs) = Inl e \<and> last tr' = Call (last cs)"
          with ne(1) show ?thesis by simp
        next
          assume q: "(\<exists>outs. map call_result cs = map Inr outs) \<and>
               thrown_by_observer tr' = thrown_by_observer tr @ [e]"
          then obtain outs where "map call_result cs = map Inr outs" by blast
          then have "map call_result (?c # cs) = map Inr (t # outs)" by simp
          then have "\<exists>outs'. map call_result (?c # cs) = map Inr outs'" by (rule exI)
          with q show ?thesis by blast
        qed
        with Inl ne(2) show ?thesis by simp
      next
        case (Inr res)
        with h(3) obtain outs where o: "map call_result cs = map Inr outs"
            "length outs = length chunks - (i + 1)"
            "transcript res = join ((ts @ [t]) @ outs) (js [CHR 0x0A, CHR 0x0A])"
            "chunksProcessed res = length chunks"
          by auto
        have "map call_result (?c # cs) = map Inr (t # outs) \<and>
               length (t # outs) = length chunks - i \<and>
               transcript res = join (ts @ (t # outs)) (js [CHR 0x0A, CHR 0x0A])"
          using o lt by simp
        then have "\<exists>outs'. map call_result (?c # cs) = map Inr outs' \<and>
               length outs' = length chunks - i \<and>
               transcript res = join (ts @ outs') (js [CHR 0x0A, CHR 0x0A])"
          by (rule exI[of _ "t # outs"])
        then show ?thesis using Inr o(4) by simp
      qed
      from a b c show ?thesis by blast
    qed
  qed
qed

lemma transcribeChunks_calls:
  assumes "transcribeChunks create chunks options w = (r, w', tr)"
  shows "chained chunks (case initialPrompt options of None \<Rightarrow> [] | Some p \<Rightarrow> p) (calls tr)"
    and "case r of
        Inl e \<Rightarrow> calls tr \<noteq> [] \<and> tr \<noteq> [] \<and>
          (call_result (last (calls tr)) = Inl e \<and> last tr = Call (last (calls tr)) \<or>
           (\<exists>outs. map call_result (calls tr) = map Inr outs) \<and> thrown_by_observer tr = [e])
      | Inr res \<Rightarrow>
          (\<exists>outs. map call_result (calls tr) = map Inr outs \<and> length outs = length chunks \<and>
             transcript res = join outs (js [CHR 0x0A, CHR 0x0A])) \<and>
          chunksProcessed res = length chunks"
  using chunks_loop_calls[OF assms[unfolded transcribeChunks_def]]
  by (auto split: sum.splits)

lemma chained_length: "chained cks rp cs \<Longrightarrow> length cs \<le> length cks"
  by (induction cks rp cs rule: chained.induct) (auto split: sum.splits)

lemma chained_nth:
  "chained cks rp cs \<Longrightarrow> k < length cs \<Longrightarrow> call_path (cs ! k) = path (cks ! k) \<and> settled (cs ! k)"
proof (induction cks rp cs arbitrary: k rule: chained.induct)
  case (3 ck cks rp c cs)
  then show ?case by (cases k) (auto split: sum.splits)
qed simp_all

lemma chained_first:
  "chained cks rp cs \<Longrightarrow> cs \<noteq> [] \<Longrightarrow> prompt (call_options (cs ! 0)) = or_undefined rp"
  by (induction cks rp cs rule: chained.induct) simp_all

lemma chained_next:
  "chained cks rp cs \<Longrightarrow> Suc k < length cs \<Longrightarrow>
   \<exists>t. call_result (cs ! k) = Inr t \<and>
       prompt (call_options (cs ! Suc k)) = or_undefined (drop (length t - 1500) t)"
proof (induction cks rp cs arbitrary: k rule: chained.induct)
  case (3 ck cks rp c cs)
  show ?case
  proof (cases k)
    case 0
    with "3.prems" show ?thesis
      by (cases "call_result c") (auto dest: chained_first)
  next
    case (Suc j)
    with "3.prems" "3.IH" show ?thesis
      by (cases "call_result c") auto
  qed
qed simp_all

lemma chained_failure_last:
  "chained cks rp cs \<Longrightarrow> k < length cs \<Longrightarrow> call_result (cs ! k) = Inl e \<Longrightarrow> Suc k = length cs"
proof (induction cks rp cs arbitrary: k rule: chained.induct)
  case (3 ck cks rp c cs)
  then show ?case by (cases k) (auto split: sum.splits)
qed simp_all

lemma failed_call_ends_run:
  assumes "transcribeChunks create chunks options w = (r, w', tr)"
    and "i < length (calls tr)"
    and "call_result (calls tr ! i) = Inl e"
  shows "r = Inl e \<and> length (calls tr) = i + 1 \<and> tr \<noteq> [] \<and> last tr = Call (calls tr ! i)"
proof -
  note ch = transcribeChunks_calls(1)[OF assms(1)]
  from chained_failure_last[OF ch assms(2,3)] have len: "length (calls tr) = i + 1" by simp
  then have lst: "last (calls tr) = calls tr ! i"
    by (metis add_diff_cancel_right' last_conv_nth length_0_conv add_is_0 zero_neq_one)
  have not_all: "map call_result (calls tr) \<noteq> map Inr outs" for outs
  proof
    assume "map call_result (calls tr) = map Inr outs"
    then have "call_result (calls tr ! i) = Inr (outs ! i)"
      using assms(2) by (metis length_map nth_map)
    with assms(3) show False by simp
  qed
  have "r = Inl e \<and> tr \<noteq> [] \<and> last tr = Call (calls tr ! i)"
  proof (cases r)
    case (Inl e')
    with transcribeChunks_calls(2)[OF assms(1)]
    have "tr \<noteq> []" and "call_result (last (calls tr)) = Inl e' \<and> last tr = Call (last (calls tr))"
      using not_all by auto
    with Inl lst assms(3) show ?thesis by simp
  next
    case (Inr res)
    with transcribeChunks_calls(2)[OF assms(1)] not_all show ?thesis by auto
  qed
  with len show ?thesis by simp
qed

lemma blank_line: "js [CHR 0x0A, CHR 0x0A] = [10, 10]"
  by (simp add: js_def)

lemma join_concat:
  "join xs sep = (case xs of [] \<Rightarrow> [] | x # ys \<Rightarrow> x @ concat (map (\<lambda>y. sep @ y) ys))"
  by (induction xs sep rule: join.induct) simp_all

lemma outputs_map_Inr: "map call_result cs = map Inr outs \<Longrightarrow> outputs cs = outs"
  by (induction cs arbitrary: outs) auto

lemma chained_paths:
  "chained cks rp cs \<Longrightarrow> length cs = length cks \<Longrightarrow> map call_path cs = map path cks"
  by (rule nth_equalityI) (simp_all add: chained_nth)

lemma settled_result:
  "settled c \<Longrightarrow> call_result c = Inl e \<Longrightarrow>
   last (call_attempts c) = Request (mk_request (call_path c) (call_options c)) (Inl e)"
proof -
  assume "settled c" and res: "call_result c = Inl e"
  then obtain resp where
    l: "last (call_attempts c) = Request (mk_request (call_path c) (call_options c)) resp"
    and r: "call_result c = map_sum id text_of resp"
    by (auto simp: settled_def)
  from r res have "resp = Inl e" by (cases resp) simp_all
  with l show ?thesis by simp
qed

lemma settled_requests:
  "settled c \<Longrightarrow> rq \<in> set (requests (call_attempts c)) \<Longrightarrow>
   req_file rq = call_path c \<and> req_prompt rq = prompt (call_options c)"
  by (auto simp: settled_def mk_request_def)

section \<open>Evaluating the scenario\<close>

lemmas eval_simps = transcribeChunks_def transcribeAudioFile_def chunks_loop.simps attempt_loop.simps
  scripted_def no_options_def mk_request_def RETRY_CONFIG_def getRetryDelay_def isRetriable_def
  or_undefined_def ROLLING_PROMPT_LENGTH_def slice_def Let_def js_def new_Error_def

lemma scenario_run:
  "transcribeChunks (scripted scenario_responses) scenario_chunks no_options 0 =
    (Inr \<lparr>transcript = js (''Hello world.'' @ [CHR 0x0A, CHR 0x0A] @ ''This is segment two.'' @ [CHR 0x0A, CHR 0x0A] @ ''Final segment here.''),
          chunksProcessed = 3\<rparr>,
     3,
     [Call (chunk_call (js ''chunk_000.mp3'') None
        [Request (text_request (js ''chunk_000.mp3'') None) (Inr (PlainText (js ''Hello world.'')))]
        (Inr (js ''Hello world.''))),
      Call (chunk_call (js ''chunk_001.mp3'') (Some (js ''Hello world.''))
        [Request (text_request (js ''chunk_001.mp3'') (Some (js ''Hello world.''))) (Inr (PlainText (js ''This is segment two.'')))]
        (Inr (js ''This is segment two.''))),
      Call (chunk_call (js ''chunk_002.mp3'') (Some (js ''This is segment two.''))
        [Request (text_request (js ''chunk_002.mp3'') (Some (js ''This is segment two.''))) (Inr (PlainText (js ''Final segment here.'')))]
        (Inr (js ''Final segment here.'')))])"
  by (simp add: eval_simps scenario_chunks_def scenario_responses_def text_request_def chunk_call_def)

lemma retry_run:
  "transcribeAudioFile (scripted [Inl rate_limited, Inl rate_limited, Inr (PlainText (js ''ok''))]) (js ''a.mp3'') no_options 0 = 
   (Inr (js ''ok''), 3, [Request (text_request (js ''a.mp3'') None) (Inl rate_limited), Sleep 1000,
      Request (text_request (js ''a.mp3'') None) (Inl rate_limited), Sleep 2000,
      Request (text_request (js ''a.mp3'') None) (Inr (PlainText (js ''ok'')))])"
  by (simp add: eval_simps rate_limited_def text_request_def)

lemma scenario_run':
  "transcribeChunks (scripted scenario_responses) scenario_chunks no_options 0 =
     (Inr scenario_result, 3, scenario_trace)"
  unfolding scenario_result_def scenario_trace_def by (rule scenario_run)

lemma scenario_calls:
  "calls scenario_trace =
     [chunk_call (js ''chunk_000.mp3'') None
        [Request (text_request (js ''chunk_000.mp3'') None)
           (Inr (PlainText (js ''Hello world.'')))]
        (Inr (js ''Hello world.'')),
      chunk_call (js ''chunk_001.mp3'') (Some (js ''Hello world.''))
        [Request (text_request (js ''chunk_001.mp3'') (Some (js ''Hello world.'')))
           (Inr (PlainText (js ''This is segment two.'')))]
        (Inr (js ''This is segment two.'')),
      chunk_call (js ''chunk_002.mp3'') (Some (js ''This is segment two.''))
        [Request (text_request (js ''chunk_002.mp3'') (Some (js ''This is segment two.'')))
           (Inr (PlainText (js ''Final segment here.'')))]
        (Inr (js ''Final segment here.''))]"
  by (simp add: scenario_trace_def)

lemma aborted_run:
  "transcribeChunks (scripted [Inr (PlainText (js ''Hello world.'')), Inl unauthorized])
     scenario_chunks no_options 0 = (Inl unauthorized, 2, aborted_trace)"
  by (simp add: eval_simps scenario_chunks_def text_request_def chunk_call_def
      unauthorized_def aborted_trace_def)

lemma text_request_eq: "mk_request p no_options = text_request p None"
  by (simp add: mk_request_def no_options_def text_request_def)

lemma exhausted_run:
  "transcribeChunks
     (scripted [Inr (PlainText (js ''Hello world.'')), Inl rate_limited, Inl rate_limited,
                Inl rate_limited, Inr (PlainText (js ''never requested''))])
     scenario_chunks no_options 0 = (Inl rate_limited, 4, exhausted_trace)"
  by (simp add: eval_simps scenario_chunks_def text_request_def chunk_call_def
      rate_limited_def exhausted_trace_def)

lemma single_run:
  "transcribeAudio (scripted [Inr (Structured (js ''Hello world.''))])
     (js ''extracted_audio.mp3'') None no_options 0 =
   (Inr \<lparr>transcript = js ''Hello world.'', chunksProcessed = 1\<rparr>, 1,
    [Call \<lparr>call_path = js ''extracted_audio.mp3'', call_options = no_options,
        call_attempts = [Request (text_request (js ''extracted_audio.mp3'') None)
                           (Inr (Structured (js ''Hello world.'')))],
        call_result = Inr (js ''Hello world.'')\<rparr>])"
  by (simp add: transcribeAudio_def transcribeSingle_def eval_simps text_request_def)

lemma long_run:
  "transcribeChunks
     (scripted [Inr (PlainText (98 # replicate 1500 97)), Inr (PlainText (js ''ok''))])
     [\<lparr>path = js ''chunk_000.mp3'', index = 0, duration = 480\<rparr>,
      \<lparr>path = js ''chunk_001.mp3'', index = 1, duration = 125\<rparr>]
     \<lparr>model = None, language = None, prompt = None,
      initialPrompt = Some (js ''Names: Ada, Grace.''), responseFormat = None,
      onProgress = None\<rparr> 0 =
   (Inr \<lparr>transcript = (98 # replicate 1500 97) @ [10, 10] @ js ''ok'', chunksProcessed = 2\<rparr>,
    2, long_trace)"
  by (simp add: eval_simps text_request_def chunk_call_def long_trace_def)

lemmas scenario_calls_nth = first_call_def second_call_def third_call_def

lemma observed_run:
  "transcribeChunks (scripted scenario_responses) scenario_chunks
     (no_options\<lparr>onProgress := Some quiet_observer\<rparr>) 0 =
     (Inr scenario_result, 3, observed_trace)"
  by (simp add: eval_simps scenario_chunks_def scenario_responses_def text_request_def
      chunk_call_def scenario_result_def observed_trace_def scenario_calls_nth
      quiet_observer_def)

section \<open>The options on the chunked path\<close>

text \<open>
  With a non-empty chunk list \<open>transcribeAudio\<close> is \<open>transcribeChunks\<close> on the same options
  object, and \<open>transcribeChunks\<close> reads the initial hint from \<open>initialPrompt\<close>: the
  \<open>prompt\<close> property of the object has no effect on that path.
\<close>

lemma transcribeAudio_chunked:
  "cs \<noteq> [] \<Longrightarrow>
   transcribeAudio create audioPath (Some cs) options w = transcribeChunks create cs options w"
  by (simp add: transcribeAudio_def)

lemma transcribeChunks_ignores_prompt:
  "transcribeChunks create cs (options\<lparr>prompt := p\<rparr>) w = transcribeChunks create cs options w"
  by (simp add: transcribeChunks_def)

section \<open>The retry policy\<close>

text \<open>
  C6. The backoff delay for attempt index \<open>n\<close> is \<open>min (initialDelay * 2 ^ n) maxDelay\<close>
  milliseconds, with initialDelay 1000 and maxDelay 10000: 1000 ms before the second attempt
  and 2000 ms before the third. In every call of \<open>transcribeAudioFile\<close> the sleeps, in
  order, are these delays for the attempt indices 0, 1, ... of the requests that were
  retried.
\<close>

theorem backoff_delay_formula:
  "getRetryDelay n = min (initialDelayMs RETRY_CONFIG * 2 ^ n) (maxDelayMs RETRY_CONFIG) \<and>
   initialDelayMs RETRY_CONFIG = 1000 \<and> maxDelayMs RETRY_CONFIG = 10000 \<and>
   getRetryDelay n = min (1000 * 2 ^ n) 10000 \<and>
   getRetryDelay 0 = 1000 \<and> getRetryDelay 1 = 2000 \<and>
   (transcribeAudioFile create p opts w = (r, w', evs) \<longrightarrow>
      sleeps evs = map getRetryDelay [0..<length (requests evs) - 1])"
proof -
  have "sleeps evs = map getRetryDelay [0..<length (requests evs) - 1]"
    if run: "transcribeAudioFile create p opts w = (r, w', evs)"
  proof -
    from run have "attempt_loop create (mk_request p opts) 0 None [] w = (r, w', evs)"
      by (simp add: transcribeAudioFile_def)
    from attempt_loop_trace[OF this] obtain new resp where
      h: "evs = [] @ new @ [Request (mk_request p opts) resp]"
         "sleeps (new @ [Request (mk_request p opts) resp]) =
            map getRetryDelay [0..<0 + length (requests new)]"
      by auto
    then show ?thesis by (simp add: requests_append)
  qed
  then show ?thesis
    by (simp add: getRetryDelay_def RETRY_CONFIG_def)
qed

theorem backoff_delay_formula_witness:
  "transcribeAudioFile
     (scripted [Inl rate_limited, Inl rate_limited, Inr (PlainText (js ''ok''))])
     (js ''a.mp3'') no_options 0 =
   (Inr (js ''ok''), 3,
    [Request (text_request (js ''a.mp3'') None) (Inl rate_limited), Sleep 1000,
     Request (text_request (js ''a.mp3'') None) (Inl rate_limited), Sleep 2000,
     Request (text_request (js ''a.mp3'') None) (Inr (PlainText (js ''ok'')))]) \<and>
   sleeps [Request (text_request (js ''a.mp3'') None) (Inl rate_limited), Sleep 1000,
     Request (text_request (js ''a.mp3'') None) (Inl rate_limited), Sleep 2000,
     Request (text_request (js ''a.mp3'') None) (Inr (PlainText (js ''ok'')))] =
     map getRetryDelay [0..<length (requests [Request (text_request (js ''a.mp3'') None) (Inl rate_limited), Sleep 1000,
     Request (text_request (js ''a.mp3'') None) (Inl rate_limited), Sleep 2000,
     Request (text_request (js ''a.mp3'') None) (Inr (PlainText (js ''ok'')))]) - 1] \<and>
   sleeps [Request (text_request (js ''a.mp3'') None) (Inl rate_limited), Sleep 1000,
     Request (text_request (js ''a.mp3'') None) (Inl rate_limited), Sleep 2000,
     Request (text_request (js ''a.mp3'') None) (Inr (PlainText (js ''ok'')))] = [1000, 2000] \<and>
   getRetryDelay 2 = 4000 \<and> getRetryDelay 3 = 8000 \<and> getRetryDelay 4 = 10000"
proof -
  let ?evs = "[Request (text_request (js ''a.mp3'') None) (Inl rate_limited), Sleep 1000,
     Request (text_request (js ''a.mp3'') None) (Inl rate_limited), Sleep 2000,
     Request (text_request (js ''a.mp3'') None) (Inr (PlainText (js ''ok'')))]"
  note run = retry_run
  from backoff_delay_formula[where n=4
      and create="scripted [Inl rate_limited, Inl rate_limited, Inr (PlainText (js ''ok''))]"
      and p="js ''a.mp3''" and opts=no_options and w=0 and r="Inr (js ''ok'')" and w'=3
      and evs="?evs"] run
  have f: "sleeps ?evs = map getRetryDelay [0..<length (requests ?evs) - 1]"
    by blast
  have g: "sleeps ?evs = [1000, 2000]"
    by simp
  have d2: "getRetryDelay 2 = 4000"
    using backoff_delay_formula[where n=2, THEN conjunct2, THEN conjunct2,
      THEN conjunct2, THEN conjunct1] by simp
  have d3: "getRetryDelay 3 = 8000"
    using backoff_delay_formula[where n=3, THEN conjunct2, THEN conjunct2,
      THEN conjunct2, THEN conjunct1] by simp
  have d4: "getRetryDelay 4 = 10000"
    using backoff_delay_formula[where n=4, THEN conjunct2, THEN conjunct2,
      THEN conjunct2, THEN conjunct1] by simp
  show ?thesis
    by (intro conjI) (fact run f g d2 d3 d4)+
qed

text \<open>
  C4. One failed attempt of the loop of \<open>transcribeAudioFile\<close>, at an attempt index below
  maxRetries = 3. If the error carries status 429, a status of 500 or more, or the code
  ECONNRESET or ETIMEDOUT, and a further attempt remains, the loop sleeps for the backoff
  delay and goes on with the next attempt index, which issues the request again. If the
  error carries none of these signals, the loop ends at once with that error, after this
  one request.
\<close>

theorem retry_transitions:
  assumes "attempt < maxRetries RETRY_CONFIG" and "create req w = (Inl e, w1)"
  shows "maxRetries RETRY_CONFIG = 3 \<and>
    ((status e = Some 429 \<or> (\<exists>st. status e = Some st \<and> st \<ge> 500) \<or>
      code e = Some (js ''ECONNRESET'') \<or> code e = Some (js ''ETIMEDOUT'')) \<and>
     attempt + 1 < maxRetries RETRY_CONFIG \<longrightarrow>
       attempt_loop create req attempt le tr w =
         attempt_loop create req (attempt + 1) (Some e)
           (tr @ [Request req (Inl e), Sleep (getRetryDelay attempt)]) w1 \<and>
       (\<exists>rest. snd (snd (attempt_loop create req attempt le tr w)) =
          tr @ [Request req (Inl e), Sleep (getRetryDelay attempt),
                Request req (fst (create req w1))] @ rest)) \<and>
    (\<not> (status e = Some 429 \<or> (\<exists>st. status e = Some st \<and> st \<ge> 500) \<or>
      code e = Some (js ''ECONNRESET'') \<or> code e = Some (js ''ETIMEDOUT'')) \<longrightarrow>
       attempt_loop create req attempt le tr w = (Inl e, w1, tr @ [Request req (Inl e)]))"
proof -
  let ?sig = "status e = Some 429 \<or> (\<exists>st. status e = Some st \<and> st \<ge> 500) \<or>
      code e = Some (js ''ECONNRESET'') \<or> code e = Some (js ''ETIMEDOUT'')"
  have sig: "?sig \<longleftrightarrow> status e = Some 429 \<or> isRetriable e"
    by (auto simp: isRetriable_def split: option.splits)
  from assms(1) have lt: "attempt < 3" by (simp add: maxRetries_eq)
  have retry: "attempt_loop create req attempt le tr w =
         attempt_loop create req (attempt + 1) (Some e)
           (tr @ [Request req (Inl e), Sleep (getRetryDelay attempt)]) w1 \<and>
       (\<exists>rest. snd (snd (attempt_loop create req attempt le tr w)) =
          tr @ [Request req (Inl e), Sleep (getRetryDelay attempt),
                Request req (fst (create req w1))] @ rest)"
    if "?sig" and more: "attempt + 1 < maxRetries RETRY_CONFIG"
  proof -
    from more have lt': "attempt + 1 < 3" by (simp add: maxRetries_eq)
    from that(1) sig have "status e = Some 429 \<or> isRetriable e" by simp
    with attempt_loop_retry[where attempt=attempt and create=create and req=req and w=w
        and e=e and ?w1.0=w1 and le=le and tr=tr] lt' assms(2)
    have step: "attempt_loop create req attempt le tr w =
         attempt_loop create req (attempt + 1) (Some e)
           (tr @ [Request req (Inl e), Sleep (getRetryDelay attempt)]) w1" by simp
    from attempt_loop_first_request[OF lt', of create req "Some e"
        "tr @ [Request req (Inl e), Sleep (getRetryDelay attempt)]" w1]
    show ?thesis unfolding step by simp
  qed
  have stop: "attempt_loop create req attempt le tr w = (Inl e, w1, tr @ [Request req (Inl e)])"
    if "\<not> ?sig"
  proof -
    from that sig have "attempt + 1 = 3 \<or> (status e \<noteq> Some 429 \<and> \<not> isRetriable e)" by simp
    with attempt_loop_throw[where attempt=attempt and create=create and req=req and w=w
        and e=e and ?w1.0=w1 and le=le and tr=tr] lt assms(2) show ?thesis by simp
  qed
  from retry stop show ?thesis by (simp only: maxRetries_eq) blast
qed

theorem retry_transitions_witness:
  "(0::nat) < maxRetries RETRY_CONFIG \<and>
   scripted [Inl server_fault, Inl connection_reset, Inr (PlainText (js ''ok''))] (text_request (js ''a.mp3'') None) 0 = (Inl server_fault, 1) \<and>
   attempt_loop (scripted [Inl server_fault, Inl connection_reset, Inr (PlainText (js ''ok''))])
      (text_request (js ''a.mp3'') None) 0 None [] 0 =
   attempt_loop (scripted [Inl server_fault, Inl connection_reset, Inr (PlainText (js ''ok''))])
      (text_request (js ''a.mp3'') None) 1 (Some server_fault)
      [Request (text_request (js ''a.mp3'') None) (Inl server_fault), Sleep 1000] 1 \<and>
   scripted [Inl unauthorized, Inr (PlainText (js ''ok''))] (text_request (js ''a.mp3'') None) 0 = (Inl unauthorized, 1) \<and>
   attempt_loop (scripted [Inl unauthorized, Inr (PlainText (js ''ok''))])
      (text_request (js ''a.mp3'') None) 0 None [] 0 =
   (Inl unauthorized, 1, [Request (text_request (js ''a.mp3'') None) (Inl unauthorized)])"
proof -
  let ?rq = "text_request (js ''a.mp3'') None"
  let ?c1 = "scripted [Inl server_fault, Inl connection_reset, Inr (PlainText (js ''ok''))]"
  let ?c2 = "scripted [Inl unauthorized, Inr (PlainText (js ''ok''))]"
  have a: "(0::nat) < maxRetries RETRY_CONFIG" by (simp add: RETRY_CONFIG_def)
  have c1: "?c1 ?rq 0 = (Inl server_fault, 1)" by (simp add: scripted_def)
  have c2: "?c2 ?rq 0 = (Inl unauthorized, 1)" by (simp add: scripted_def)
  have s1: "(status server_fault = Some 429 \<or> (\<exists>st. status server_fault = Some st \<and> st \<ge> 500) \<or>
      code server_fault = Some (js ''ECONNRESET'') \<or> code server_fault = Some (js ''ETIMEDOUT'')) \<and>
     0 + 1 < maxRetries RETRY_CONFIG"
    by (simp add: server_fault_def RETRY_CONFIG_def)
  have s2: "\<not> (status unauthorized = Some 429 \<or> (\<exists>st. status unauthorized = Some st \<and> st \<ge> 500) \<or>
      code unauthorized = Some (js ''ECONNRESET'') \<or> code unauthorized = Some (js ''ETIMEDOUT''))"
    by (simp add: unauthorized_def)
  from retry_transitions[where attempt=0 and create="?c1" and req="?rq" and w=0
      and e=server_fault and ?w1.0=1 and le=None and tr="[]"] a c1 s1
  have r1: "attempt_loop ?c1 ?rq 0 None [] 0 =
     attempt_loop ?c1 ?rq (0 + 1) (Some server_fault)
       ([] @ [Request ?rq (Inl server_fault), Sleep (getRetryDelay 0)]) 1"
    by blast
  from retry_transitions[where attempt=0 and create="?c2" and req="?rq" and w=0
      and e=unauthorized and ?w1.0=1 and le=None and tr="[]"] a c2 s2
  have r2: "attempt_loop ?c2 ?rq 0 None [] 0 = (Inl unauthorized, 1, [] @ [Request ?rq (Inl unauthorized)])"
    by blast
  from r1 have r1': "attempt_loop ?c1 ?rq 0 None [] 0 =
     attempt_loop ?c1 ?rq 1 (Some server_fault) [Request ?rq (Inl server_fault), Sleep 1000] 1"
    by (simp add: getRetryDelay_def RETRY_CONFIG_def)
  from a c1 c2 r1' r2 show ?thesis by simp
qed

text \<open>
  C8. A call whose request is answered with status 429 on the first and the second attempt
  and with a transcription on the third returns the text of that transcription, after
  sleeping 1000 ms and 2000 ms: the same output as a call whose request gets the same
  transcription on the first attempt.
\<close>

theorem retry_then_success_same_output:
  assumes "create (mk_request audioPath options) w0 = (Inl e1, w1)" and "status e1 = Some 429"
    and "create (mk_request audioPath options) w1 = (Inl e2, w2)" and "status e2 = Some 429"
    and "create (mk_request audioPath options) w2 = (Inr t, w3)"
    and "create' (mk_request audioPath options) v0 = (Inr t, v1)"
  shows "transcribeAudioFile create audioPath options w0 =
      (Inr (text_of t), w3,
       [Request (mk_request audioPath options) (Inl e1), Sleep 1000,
        Request (mk_request audioPath options) (Inl e2), Sleep 2000,
        Request (mk_request audioPath options) (Inr t)]) \<and>
    transcribeAudioFile create' audioPath options v0 =
      (Inr (text_of t), v1, [Request (mk_request audioPath options) (Inr t)]) \<and>
    fst (transcribeAudioFile create audioPath options w0) =
      fst (transcribeAudioFile create' audioPath options v0)"
proof -
  let ?rq = "mk_request audioPath options"
  have "attempt_loop create ?rq 0 None [] w0 =
      attempt_loop create ?rq 2 (Some e2)
        [Request ?rq (Inl e1), Sleep 1000, Request ?rq (Inl e2), Sleep 2000] w2"
    using assms(1-4) by (rule two_rate_limits)
  also have "\<dots> = (Inr (text_of t), w3,
       [Request ?rq (Inl e1), Sleep 1000, Request ?rq (Inl e2), Sleep 2000] @
       [Request ?rq (Inr t)])"
    using attempt_loop_success[where attempt=2 and create=create and req="?rq" and w=w2
        and t=t and ?w1.0=w3 and le="Some e2"
        and tr="[Request ?rq (Inl e1), Sleep 1000, Request ?rq (Inl e2), Sleep 2000]"]
      assms(5)
    by simp
  finally have a: "transcribeAudioFile create audioPath options w0 =
      (Inr (text_of t), w3,
       [Request ?rq (Inl e1), Sleep 1000, Request ?rq (Inl e2), Sleep 2000,
        Request ?rq (Inr t)])"
    by (simp add: transcribeAudioFile_def)
  have b: "transcribeAudioFile create' audioPath options v0 =
      (Inr (text_of t), v1, [Request (mk_request audioPath options) (Inr t)])"
    using attempt_loop_success[where attempt=0 and create=create'
        and req="mk_request audioPath options" and w=v0
        and t=t and ?w1.0=v1 and le=None and tr="[]"] assms(6)
    by (simp add: transcribeAudioFile_def)
  from a b show ?thesis by simp
qed

theorem retry_then_success_same_output_witness:
  "transcribeAudioFile
     (scripted [Inl rate_limited, Inl rate_limited, Inr (PlainText (js ''ok''))])
     (js ''a.mp3'') no_options 0 =
   (Inr (js ''ok''), 3,
    [Request (text_request (js ''a.mp3'') None) (Inl rate_limited), Sleep 1000,
     Request (text_request (js ''a.mp3'') None) (Inl rate_limited), Sleep 2000,
     Request (text_request (js ''a.mp3'') None) (Inr (PlainText (js ''ok'')))]) \<and>
   transcribeAudioFile (scripted [Inr (PlainText (js ''ok''))]) (js ''a.mp3'') no_options 0 =
   (Inr (js ''ok''), 1,
    [Request (text_request (js ''a.mp3'') None) (Inr (PlainText (js ''ok'')))]) \<and>
   status rate_limited = Some 429"
proof -
  let ?c = "scripted [Inl rate_limited, Inl rate_limited, Inr (PlainText (js ''ok''))]"
  let ?d = "scripted [Inr (PlainText (js ''ok''))]"
  let ?rq = "mk_request (js ''a.mp3'') (no_options :: nat options)"
  have s: "status rate_limited = Some 429" by (simp add: rate_limited_def)
  have h1: "?c ?rq 0 = (Inl rate_limited, 1)" by (simp add: scripted_def)
  have h2: "?c ?rq 1 = (Inl rate_limited, 2)" by (simp add: scripted_def)
  have h3: "?c ?rq 2 = (Inr (PlainText (js ''ok'')), 3)" by (simp add: scripted_def)
  have h4: "?d ?rq 0 = (Inr (PlainText (js ''ok'')), 1)" by (simp add: scripted_def)
  from retry_then_success_same_output[where create="?c" and create'="?d"
      and audioPath="js ''a.mp3''" and options=no_options
      and ?w0.0=0 and ?w1.0=1 and ?w2.0=2 and ?w3.0=3 and ?v0.0=0 and ?v1.0=1
      and ?e1.0=rate_limited and ?e2.0=rate_limited and t="PlainText (js ''ok'')"] s h1 h2 h3 h4
  show ?thesis by (simp add: text_request_eq)
qed

text \<open>
  C7. A call whose request is answered with status 429 on all three attempts fails with the
  error of the third attempt, which carries status 429, after three requests and two sleeps.
  In the pipeline, a chunk call that failed with a status-429 error makes the whole run fail
  with that same error, and it is the last call of the run: no later chunk is attempted.
\<close>

theorem rate_limit_exhausted:
  assumes "create (mk_request audioPath options) w0 = (Inl e1, w1)" and "status e1 = Some 429"
    and "create (mk_request audioPath options) w1 = (Inl e2, w2)" and "status e2 = Some 429"
    and "create (mk_request audioPath options) w2 = (Inl e3, w3)" and "status e3 = Some 429"
    and "transcribeChunks client chunks opts v = (r, v', tr)"
    and "i < length (calls tr)"
    and "call_result (calls tr ! i) = Inl e" and "status e = Some 429"
  shows "transcribeAudioFile create audioPath options w0 =
      (Inl e3, w3,
       [Request (mk_request audioPath options) (Inl e1), Sleep 1000,
        Request (mk_request audioPath options) (Inl e2), Sleep 2000,
        Request (mk_request audioPath options) (Inl e3)]) \<and>
    (case fst (transcribeAudioFile create audioPath options w0) of
       Inl err \<Rightarrow> status err = Some 429 | Inr t \<Rightarrow> False) \<and>
    (case r of Inl err \<Rightarrow> err = e \<and> status err = Some 429 | Inr res \<Rightarrow> False) \<and>
    length (calls tr) = i + 1 \<and> i < length chunks \<and> last tr = Call (calls tr ! i)"
proof -
  let ?rq = "mk_request audioPath options"
  have "attempt_loop create ?rq 0 None [] w0 =
      attempt_loop create ?rq 2 (Some e2)
        [Request ?rq (Inl e1), Sleep 1000, Request ?rq (Inl e2), Sleep 2000] w2"
    using assms(1-4) by (rule two_rate_limits)
  also have "\<dots> = (Inl e3, w3,
       [Request ?rq (Inl e1), Sleep 1000, Request ?rq (Inl e2), Sleep 2000] @
       [Request ?rq (Inl e3)])"
    using attempt_loop_throw[where attempt=2 and create=create and req="?rq" and w=w2
        and e=e3 and ?w1.0=w3 and le="Some e2"
        and tr="[Request ?rq (Inl e1), Sleep 1000, Request ?rq (Inl e2), Sleep 2000]"]
      assms(5)
    by simp
  finally have a: "transcribeAudioFile create audioPath options w0 =
      (Inl e3, w3,
       [Request ?rq (Inl e1), Sleep 1000, Request ?rq (Inl e2), Sleep 2000,
        Request ?rq (Inl e3)])"
    by (simp add: transcribeAudioFile_def)
  note ch = transcribeChunks_calls(1)[OF assms(7)]
  from chained_length[OF ch] assms(8) have ic: "i < length chunks" by simp
  from failed_call_ends_run[OF assms(7,8,9)]
  have res: "r = Inl e \<and> last tr = Call (calls tr ! i)"
    and len: "length (calls tr) = i + 1"
    by simp_all
  from a res len ic assms(6,10) show ?thesis by simp
qed

theorem rate_limit_exhausted_witness:
  "transcribeAudioFile (scripted [Inl rate_limited, Inl rate_limited, Inl rate_limited])
     (js ''a.mp3'') no_options 0 =
   (Inl rate_limited, 3,
    [Request (text_request (js ''a.mp3'') None) (Inl rate_limited), Sleep 1000,
     Request (text_request (js ''a.mp3'') None) (Inl rate_limited), Sleep 2000,
     Request (text_request (js ''a.mp3'') None) (Inl rate_limited)]) \<and>
   status rate_limited = Some 429 \<and>
   transcribeChunks
     (scripted [Inr (PlainText (js ''Hello world.'')), Inl rate_limited, Inl rate_limited,
                Inl rate_limited, Inr (PlainText (js ''never requested''))])
     scenario_chunks no_options 0 = (Inl rate_limited, 4, exhausted_trace) \<and>
   (1::nat) < length (calls exhausted_trace) \<and>
   call_result (calls exhausted_trace ! 1) = Inl rate_limited \<and>
   length (calls exhausted_trace) = 1 + 1 \<and>
   last exhausted_trace = Call (calls exhausted_trace ! 1) \<and>
   length scenario_chunks = 3"
proof -
  let ?c = "scripted [Inl rate_limited, Inl rate_limited, Inl rate_limited]"
  let ?rq = "mk_request (js ''a.mp3'') (no_options :: nat options)"
  have s: "status rate_limited = Some 429" by (simp add: rate_limited_def)
  have h1: "?c ?rq 0 = (Inl rate_limited, 1)" by (simp add: scripted_def)
  have h2: "?c ?rq 1 = (Inl rate_limited, 2)" by (simp add: scripted_def)
  have h3: "?c ?rq 2 = (Inl rate_limited, 3)" by (simp add: scripted_def)
  have l: "(1::nat) < length (calls exhausted_trace)"
    by (simp add: exhausted_trace_def)
  have f: "call_result (calls exhausted_trace ! 1) = Inl rate_limited"
    by (simp add: exhausted_trace_def chunk_call_def)
  have n: "length scenario_chunks = 3" by (simp add: scenario_chunks_def)
  note c = rate_limit_exhausted[where create="?c" and audioPath="js ''a.mp3''"
      and options=no_options and ?w0.0=0 and ?w1.0=1 and ?w2.0=2 and ?w3.0=3
      and ?e1.0=rate_limited and ?e2.0=rate_limited and ?e3.0=rate_limited
      and client="scripted [Inr (PlainText (js ''Hello world.'')), Inl rate_limited,
                Inl rate_limited, Inl rate_limited, Inr (PlainText (js ''never requested''))]"
      and chunks=scenario_chunks and opts=no_options and v=0 and r="Inl rate_limited"
      and v'=4 and tr=exhausted_trace and i=1 and e=rate_limited,
      OF h1 s h2 s h3 s exhausted_run l f s]
  from c have a: "transcribeAudioFile ?c (js ''a.mp3'') no_options 0 =
   (Inl rate_limited, 3,
    [Request (text_request (js ''a.mp3'') None) (Inl rate_limited), Sleep 1000,
     Request (text_request (js ''a.mp3'') None) (Inl rate_limited), Sleep 2000,
     Request (text_request (js ''a.mp3'') None) (Inl rate_limited)])"
    by (simp add: text_request_eq)
  from c have b: "length (calls exhausted_trace) = 1 + 1" by blast
  from c have d: "last exhausted_trace = Call (calls exhausted_trace ! 1)" by blast
  show ?thesis
    by (intro conjI) (fact a s exhausted_run l f b d n)+
qed

section \<open>The chunk pipeline\<close>

text \<open>
  C1, as stated, fails: the observer is called after each chunk with no handler around it,
  so in a run in which the call for every chunk succeeded, an observer that throws at the
  last notification makes \<open>transcribeChunks\<close> fail with what it threw, and no transcript is
  returned.
\<close>

theorem observer_throw_rejects:
  "transcribeChunks (scripted scenario_responses) scenario_chunks
     (no_options\<lparr>onProgress := Some failing_observer\<rparr>) 0 =
     (Inl observer_error, 3, rejected_trace) \<and>
   map call_result (calls rejected_trace) =
     map Inr [js ''Hello world.'', js ''This is segment two.'', js ''Final segment here.''] \<and>
   length scenario_chunks = 3"
  by (simp add: eval_simps scenario_chunks_def scenario_responses_def text_request_def
      chunk_call_def rejected_trace_def scenario_calls_nth failing_observer_def
      observer_error_def)

text \<open>
  C1, amended. If every call made by \<open>transcribeChunks\<close> succeeded and the observer, if there
  is one, returned from every notification, then there is one call per chunk, on the chunks'
  paths in index order, and the run returns a processed count equal to the number of chunks
  and, as transcript, the outputs of the calls in that order with the two code units
  \<open>\n\n\<close> (10, 10) before every output but the first. (The empty chunk list is included,
  with the empty transcript.)
\<close>

theorem transcribeChunks_joins_outputs:
  assumes "transcribeChunks create chunks options w = (r, w', tr)"
    and "\<forall>c \<in> set (calls tr). \<exists>t. call_result c = Inr t"
    and "thrown_by_observer tr = []"
  shows "\<exists>outs. map call_result (calls tr) = map Inr outs \<and>
           length outs = length chunks \<and>
           map call_path (calls tr) = map path chunks \<and>
           r = Inr \<lparr>transcript =
                      (case outs of
                         [] \<Rightarrow> []
                       | x # ys \<Rightarrow> x @ concat (map (\<lambda>y. [10, 10] @ y) ys)),
                    chunksProcessed = length chunks\<rparr>"
proof (cases r)
  case (Inl e)
  with transcribeChunks_calls(2)[OF assms(1)] assms(3)
  have "calls tr \<noteq> []" and "call_result (last (calls tr)) = Inl e" by auto
  moreover from this(1) have "last (calls tr) \<in> set (calls tr)" by simp
  ultimately show ?thesis using assms(2) by fastforce
next
  case (Inr res)
  with transcribeChunks_calls(2)[OF assms(1)] obtain outs where
    o: "map call_result (calls tr) = map Inr outs" "length outs = length chunks"
       "transcript res = join outs (js [CHR 0x0A, CHR 0x0A])"
       "chunksProcessed res = length chunks"
    by auto
  from o(1) have "length (calls tr) = length outs"
    by (metis length_map)
  with o(2) have len: "length (calls tr) = length chunks" by simp
  have "res = \<lparr>transcript =
                 (case outs of [] \<Rightarrow> [] | x # ys \<Rightarrow> x @ concat (map (\<lambda>y. [10, 10] @ y) ys)),
               chunksProcessed = length chunks\<rparr>"
    using o(3,4) by (cases res) (simp add: blank_line join_concat)
  with Inr o(1,2) chained_paths[OF transcribeChunks_calls(1)[OF assms(1)] len]
  show ?thesis by blast
qed

theorem transcribeChunks_joins_outputs_witness:
  "transcribeChunks (scripted scenario_responses) scenario_chunks
     (no_options\<lparr>onProgress := Some quiet_observer\<rparr>) 0 =
     (Inr scenario_result, 3, observed_trace) \<and>
   thrown_by_observer observed_trace = [] \<and>
   map call_result (calls observed_trace) =
     map Inr [js ''Hello world.'', js ''This is segment two.'', js ''Final segment here.''] \<and>
   Inr scenario_result =
     (Inr \<lparr>transcript =
             js ''Hello world.'' @ [10, 10] @ js ''This is segment two.'' @ [10, 10] @
             js ''Final segment here.'',
           chunksProcessed = 3\<rparr> :: js_error + transcribe_result) \<and>
   map call_path (calls observed_trace) = map path scenario_chunks"
proof -
  have res: "map call_result (calls observed_trace) =
     map Inr [js ''Hello world.'', js ''This is segment two.'', js ''Final segment here.'']"
    by (simp add: observed_trace_def scenario_calls_nth chunk_call_def)
  have ok: "\<forall>c \<in> set (calls observed_trace). \<exists>t. call_result c = Inr t"
    by (simp add: observed_trace_def scenario_calls_nth chunk_call_def)
  have quiet: "thrown_by_observer observed_trace = []"
    by (simp add: observed_trace_def)
  have n: "length scenario_chunks = 3"
    by (simp add: scenario_chunks_def)
  from transcribeChunks_joins_outputs[where create="scripted scenario_responses"
      and chunks=scenario_chunks and options="no_options\<lparr>onProgress := Some quiet_observer\<rparr>"
      and w=0 and r="Inr scenario_result" and w'=3 and tr=observed_trace,
      OF observed_run ok quiet]
  obtain outs where
    o: "map call_result (calls observed_trace) = map Inr outs"
       "map call_path (calls observed_trace) = map path scenario_chunks"
       "Inr scenario_result =
          (Inr \<lparr>transcript =
                  (case outs of [] \<Rightarrow> [] | x # ys \<Rightarrow> x @ concat (map (\<lambda>y. [10, 10] @ y) ys)),
                chunksProcessed = length scenario_chunks\<rparr> :: js_error + transcribe_result)"
    by blast
  from o(1) have "outputs (calls observed_trace) = outs"
    by (rule outputs_map_Inr)
  moreover have "outputs (calls observed_trace) =
      [js ''Hello world.'', js ''This is segment two.'', js ''Final segment here.'']"
    by (simp add: observed_trace_def scenario_calls_nth chunk_call_def)
  ultimately have outs: "outs =
      [js ''Hello world.'', js ''This is segment two.'', js ''Final segment here.'']"
    by simp
  have r: "Inr scenario_result =
     (Inr \<lparr>transcript =
             js ''Hello world.'' @ [10, 10] @ js ''This is segment two.'' @ [10, 10] @
             js ''Final segment here.'',
           chunksProcessed = 3\<rparr> :: js_error + transcribe_result)"
    using o(3) unfolding outs n by simp
  show ?thesis
    by (intro conjI) (fact observed_run quiet res r o(2))+
qed

text \<open>
  C2. The call for chunk \<open>i\<close> targets that chunk's file, and every request it issues
  carries the call's prompt. For chunk 0 the prompt is the initial hint of the caller; for
  \<open>i \<ge> 1\<close> the call for chunk \<open>i - 1\<close> succeeded and the prompt is its output if that
  has at most 1500 code units, its last 1500 code units otherwise. An empty hint is passed
  as no prompt at all.
\<close>

theorem rolling_prompt_chain:
  assumes "transcribeChunks create chunks options w = (r, w', tr)"
    and "i < length (calls tr)"
  shows "call_path (calls tr ! i) = path (chunks ! i) \<and>
    (\<forall>rq \<in> set (requests (call_attempts (calls tr ! i))).
        req_file rq = path (chunks ! i) \<and>
        req_prompt rq = prompt (call_options (calls tr ! i))) \<and>
    (i = 0 \<longrightarrow>
       prompt (call_options (calls tr ! i)) =
         (let hint = (case initialPrompt options of None \<Rightarrow> [] | Some p \<Rightarrow> p)
          in if hint = [] then None else Some hint)) \<and>
    (1 \<le> i \<longrightarrow>
       (\<exists>out. call_result (calls tr ! (i - 1)) = Inr out \<and>
          prompt (call_options (calls tr ! i)) =
            (let hint = (if length out \<le> 1500 then out else drop (length out - 1500) out)
             in if hint = [] then None else Some hint)))"
proof -
  note ch = transcribeChunks_calls(1)[OF assms(1)]
  from chained_nth[OF ch assms(2)]
  have p: "call_path (calls tr ! i) = path (chunks ! i)" and s: "settled (calls tr ! i)"
    by simp_all
  have rqs: "\<forall>rq \<in> set (requests (call_attempts (calls tr ! i))).
        req_file rq = path (chunks ! i) \<and>
        req_prompt rq = prompt (call_options (calls tr ! i))"
    using settled_requests[OF s] p by simp
  have first: "prompt (call_options (calls tr ! i)) =
         (let hint = (case initialPrompt options of None \<Rightarrow> [] | Some p \<Rightarrow> p)
          in if hint = [] then None else Some hint)" if "i = 0"
  proof -
    from assms(2) have "calls tr \<noteq> []" by auto
    from chained_first[OF ch this] that show ?thesis
      by (simp add: or_undefined_def Let_def)
  qed
  have later: "\<exists>out. call_result (calls tr ! (i - 1)) = Inr out \<and>
          prompt (call_options (calls tr ! i)) =
            (let hint = (if length out \<le> 1500 then out else drop (length out - 1500) out)
             in if hint = [] then None else Some hint)" if "1 \<le> i"
  proof -
    from that obtain k where k: "i = Suc k" by (cases i) auto
    with assms(2) have "Suc k < length (calls tr)" by simp
    from chained_next[OF ch this] obtain t where
      t: "call_result (calls tr ! k) = Inr t"
         "prompt (call_options (calls tr ! Suc k)) = or_undefined (drop (length t - 1500) t)"
      by blast
    have eq: "(if length t \<le> 1500 then t else drop (length t - 1500) t) =
        drop (length t - 1500) t"
      by simp
    from t(2) have "prompt (call_options (calls tr ! i)) =
        (if drop (length t - 1500) t = [] then None else Some (drop (length t - 1500) t))"
      unfolding or_undefined_def k .
    then have "prompt (call_options (calls tr ! i)) =
        (let hint = (if length t \<le> 1500 then t else drop (length t - 1500) t)
         in if hint = [] then None else Some hint)"
      unfolding Let_def eq .
    moreover have "call_result (calls tr ! (i - 1)) = Inr t"
      using t(1) k by simp
    ultimately show ?thesis by blast
  qed
  from p rqs first later show ?thesis by blast
qed

theorem rolling_prompt_chain_witness:
  "transcribeChunks (scripted scenario_responses) scenario_chunks no_options 0 =
     (Inr scenario_result, 3, scenario_trace) \<and>
   (2::nat) < length (calls scenario_trace) \<and>
   call_path (calls scenario_trace ! 2) = path (scenario_chunks ! 2) \<and>
   call_result (calls scenario_trace ! 0) = Inr (js ''Hello world.'') \<and>
   prompt (call_options (calls scenario_trace ! 1)) = Some (js ''Hello world.'') \<and>
   call_result (calls scenario_trace ! 1) = Inr (js ''This is segment two.'') \<and>
   prompt (call_options (calls scenario_trace ! 2)) = Some (js ''This is segment two.'') \<and>
   prompt (call_options (calls scenario_trace ! 0)) = None"
proof -
  have l0: "(0::nat) < length (calls scenario_trace)"
    and l1: "(1::nat) < length (calls scenario_trace)"
    and l2: "(2::nat) < length (calls scenario_trace)"
    by (simp_all add: scenario_calls)
  have r0: "call_result (calls scenario_trace ! 0) = Inr (js ''Hello world.'')"
    and r1: "call_result (calls scenario_trace ! 1) = Inr (js ''This is segment two.'')"
    by (simp_all add: scenario_calls chunk_call_def)
  note c0 = rolling_prompt_chain[where create="scripted scenario_responses"
      and chunks=scenario_chunks and options=no_options and w=0 and r="Inr scenario_result"
      and w'=3 and tr=scenario_trace and i=0, OF scenario_run' l0]
  note c1 = rolling_prompt_chain[where create="scripted scenario_responses"
      and chunks=scenario_chunks and options=no_options and w=0 and r="Inr scenario_result"
      and w'=3 and tr=scenario_trace and i=1, OF scenario_run' l1]
  note c2 = rolling_prompt_chain[where create="scripted scenario_responses"
      and chunks=scenario_chunks and options=no_options and w=0 and r="Inr scenario_result"
      and w'=3 and tr=scenario_trace and i=2, OF scenario_run' l2]
  from c0 have p0: "prompt (call_options (calls scenario_trace ! 0)) = None"
    by (simp add: no_options_def)
  from c1 r0 have p1: "prompt (call_options (calls scenario_trace ! 1)) = Some (js ''Hello world.'')"
    by (simp add: js_def)
  from c2 r1 have p2: "prompt (call_options (calls scenario_trace ! 2)) = Some (js ''This is segment two.'')"
    by (simp add: js_def)
  from c2 have q2: "call_path (calls scenario_trace ! 2) = path (scenario_chunks ! 2)"
    by blast
  show ?thesis
    by (intro conjI) (fact scenario_run' l2 q2 r0 p1 r1 p2 p0)+
qed

text \<open>
  C3. If the call for chunk \<open>i\<close> fails with an error, \<open>transcribeChunks\<close> fails with that
  same error (so no transcript is returned), that call is the last event of the run, so no
  chunk after \<open>i\<close> is attempted, and the error is the one the service gave to the last
  request of that call.
\<close>

theorem chunk_failure_aborts:
  assumes "transcribeChunks create chunks options w = (r, w', tr)"
    and "i < length (calls tr)"
    and "call_result (calls tr ! i) = Inl e"
  shows "r = Inl e \<and> length (calls tr) = i + 1 \<and> tr \<noteq> [] \<and>
    last tr = Call (calls tr ! i) \<and>
    call_path (calls tr ! i) = path (chunks ! i) \<and>
    last (call_attempts (calls tr ! i)) =
      Request (mk_request (call_path (calls tr ! i)) (call_options (calls tr ! i))) (Inl e)"
proof -
  note ch = transcribeChunks_calls(1)[OF assms(1)]
  from chained_nth[OF ch assms(2)]
  have p: "call_path (calls tr ! i) = path (chunks ! i)" and s: "settled (calls tr ! i)"
    by simp_all
  from failed_call_ends_run[OF assms] p settled_result[OF s assms(3)]
  show ?thesis by simp
qed

theorem chunk_failure_aborts_witness:
  "transcribeChunks (scripted [Inr (PlainText (js ''Hello world.'')), Inl unauthorized])
     scenario_chunks no_options 0 = (Inl unauthorized, 2, aborted_trace) \<and>
   (1::nat) < length (calls aborted_trace) \<and>
   call_result (calls aborted_trace ! 1) = Inl unauthorized \<and>
   length (calls aborted_trace) = 1 + 1 \<and>
   last aborted_trace = Call (calls aborted_trace ! 1) \<and>
   call_path (calls aborted_trace ! 1) = path (scenario_chunks ! 1) \<and>
   length scenario_chunks = 3"
proof -
  have l: "(1::nat) < length (calls aborted_trace)"
    by (simp add: aborted_trace_def)
  have f: "call_result (calls aborted_trace ! 1) = Inl unauthorized"
    by (simp add: aborted_trace_def chunk_call_def)
  note c = chunk_failure_aborts[where create="scripted [Inr (PlainText (js ''Hello world.'')), Inl unauthorized]"
      and chunks=scenario_chunks and options=no_options and w=0 and r="Inl unauthorized"
      and w'=2 and tr=aborted_trace and i=1 and e=unauthorized, OF aborted_run l f]
  from c have a: "length (calls aborted_trace) = 1 + 1" by blast
  from c have b: "last aborted_trace = Call (calls aborted_trace ! 1)" by blast
  from c have d: "call_path (calls aborted_trace ! 1) = path (scenario_chunks ! 1)" by blast
  have n: "length scenario_chunks = 3" by (simp add: scenario_chunks_def)
  show ?thesis
    by (intro conjI) (fact aborted_run l f a b d n)+
qed

text \<open>
  C9, as stated, fails: \<open>transcribeChunks\<close> passes the initial hint on as it is, so an
  initial hint of 1501 code units is sent with the request for chunk 0.
\<close>

theorem initial_hint_not_bounded:
  "transcribeChunks (scripted [Inr (PlainText (js ''Hello world.''))])
     [\<lparr>path = js ''chunk_000.mp3'', index = 0, duration = 480\<rparr>]
     \<lparr>model = None, language = None, prompt = None,
      initialPrompt = Some (replicate 1501 97), responseFormat = None, onProgress = None\<rparr> 0 =
   (Inr \<lparr>transcript = js ''Hello world.'', chunksProcessed = 1\<rparr>, 1,
    [Call (chunk_call (js ''chunk_000.mp3'') (Some (replicate 1501 97))
       [Request (text_request (js ''chunk_000.mp3'') (Some (replicate 1501 97)))
          (Inr (PlainText (js ''Hello world.'')))]
       (Inr (js ''Hello world.'')))]) \<and>
   1500 < length (replicate 1501 (97 :: 16 word))"
  by (simp add: eval_simps text_request_def chunk_call_def)

text \<open>
  C9, amended. Every request for a chunk \<open>i \<ge> 1\<close> carries a prompt of at most 1500 code
  units. Every request for chunk 0 carries the initial hint unchanged (no prompt when it is
  absent or empty), so its prompt is within 1500 code units whenever the initial hint is.
\<close>

theorem prompt_bound:
  assumes "transcribeChunks create chunks options w = (r, w', tr)"
    and "i < length (calls tr)"
    and "rq \<in> set (requests (call_attempts (calls tr ! i)))"
  shows "(1 \<le> i \<longrightarrow>
            (case req_prompt rq of None \<Rightarrow> True | Some p \<Rightarrow> length p \<le> 1500)) \<and>
         (i = 0 \<longrightarrow>
            req_prompt rq =
              (case initialPrompt options of
                 None \<Rightarrow> None
               | Some p \<Rightarrow> if p = [] then None else Some p)) \<and>
         (i = 0 \<and> (case initialPrompt options of None \<Rightarrow> True | Some p \<Rightarrow> length p \<le> 1500) \<longrightarrow>
            (case req_prompt rq of None \<Rightarrow> True | Some p \<Rightarrow> length p \<le> 1500))"
proof -
  note ch = transcribeChunks_calls(1)[OF assms(1)]
  from chained_nth[OF ch assms(2)] have s: "settled (calls tr ! i)" by simp
  from settled_requests[OF s assms(3)]
  have rq: "req_prompt rq = prompt (call_options (calls tr ! i))" by simp
  have later: "case req_prompt rq of None \<Rightarrow> True | Some p \<Rightarrow> length p \<le> 1500" if "1 \<le> i"
  proof -
    from that obtain k where k: "i = Suc k" by (cases i) auto
    with assms(2) have "Suc k < length (calls tr)" by simp
    from chained_next[OF ch this] obtain t where
      "prompt (call_options (calls tr ! Suc k)) = or_undefined (drop (length t - 1500) t)"
      by blast
    moreover have "length (drop (length t - 1500) t) \<le> 1500"
      by (cases "length t \<le> 1500") simp_all
    ultimately show ?thesis
      using rq k by (simp add: or_undefined_def del: length_drop)
  qed
  have first: "req_prompt rq =
      (case initialPrompt options of None \<Rightarrow> None | Some p \<Rightarrow> if p = [] then None else Some p)"
    if "i = 0"
  proof -
    from assms(2) have "calls tr \<noteq> []" by auto
    from chained_first[OF ch this] that rq show ?thesis
      by (simp add: or_undefined_def split: option.splits)
  qed
  have bounded: "case req_prompt rq of None \<Rightarrow> True | Some p \<Rightarrow> length p \<le> 1500"
    if "i = 0" and "case initialPrompt options of None \<Rightarrow> True | Some p \<Rightarrow> length p \<le> 1500"
    using first[OF that(1)] that(2) by (simp split: option.splits if_splits)
  from later first bounded show ?thesis by blast
qed

theorem prompt_bound_witness:
  "transcribeChunks
     (scripted [Inr (PlainText (98 # replicate 1500 97)), Inr (PlainText (js ''ok''))])
     [\<lparr>path = js ''chunk_000.mp3'', index = 0, duration = 480\<rparr>,
      \<lparr>path = js ''chunk_001.mp3'', index = 1, duration = 125\<rparr>]
     \<lparr>model = None, language = None, prompt = None,
      initialPrompt = Some (js ''Names: Ada, Grace.''), responseFormat = None,
      onProgress = None\<rparr> 0 =
   (Inr \<lparr>transcript = (98 # replicate 1500 97) @ [10, 10] @ js ''ok'', chunksProcessed = 2\<rparr>,
    2, long_trace) \<and>
   (1::nat) < length (calls long_trace) \<and>
   text_request (js ''chunk_001.mp3'') (Some (replicate 1500 97))
     \<in> set (requests (call_attempts (calls long_trace ! 1))) \<and>
   length (replicate 1500 (97 :: 16 word)) \<le> 1500 \<and>
   text_request (js ''chunk_000.mp3'') (Some (js ''Names: Ada, Grace.''))
     \<in> set (requests (call_attempts (calls long_trace ! 0))) \<and>
   length (js ''Names: Ada, Grace.'') \<le> 1500"
proof -
  have l0: "(0::nat) < length (calls long_trace)" and l1: "(1::nat) < length (calls long_trace)"
    by (simp_all add: long_trace_def)
  have m1: "text_request (js ''chunk_001.mp3'') (Some (replicate 1500 97))
     \<in> set (requests (call_attempts (calls long_trace ! 1)))"
    by (simp add: long_trace_def chunk_call_def)
  have m0: "text_request (js ''chunk_000.mp3'') (Some (js ''Names: Ada, Grace.''))
     \<in> set (requests (call_attempts (calls long_trace ! 0)))"
    by (simp add: long_trace_def chunk_call_def)
  from prompt_bound[OF long_run l1 m1]
  have b1: "length (replicate 1500 (97 :: 16 word)) \<le> 1500"
    by (simp add: text_request_def)
  from prompt_bound[OF long_run l0 m0]
  have b0: "length (js ''Names: Ada, Grace.'') \<le> 1500"
    by (simp add: text_request_def js_def)
  show ?thesis
    by (intro conjI) (fact long_run l1 m1 b1 m0 b0)+
qed

section \<open>The entry point\<close>

text \<open>
  C5. With no chunk list, \<open>transcribeAudio\<close> makes exactly one call of
  \<open>transcribeAudioFile\<close>, on the whole audio file and with the caller's options; all of its
  requests are for that file. When the call returns a text, the result is that text with a
  processed count of 1; when it fails, the error is passed on.
\<close>

theorem transcribeAudio_without_chunks:
  assumes "transcribeAudio create audioPath None options w = (r, w', tr)"
  shows "\<exists>c. tr = [Call c] \<and> calls tr = [c] \<and>
    call_path c = audioPath \<and> call_options c = options \<and>
    transcribeAudioFile create audioPath options w = (call_result c, w', call_attempts c) \<and>
    (\<forall>rq \<in> set (requests (call_attempts c)). req_file rq = audioPath) \<and>
    (case call_result c of
       Inr t \<Rightarrow> r = Inr \<lparr>transcript = t, chunksProcessed = 1\<rparr>
     | Inl e \<Rightarrow> r = Inl e)"
proof -
  obtain res w1 evs where
    call: "transcribeAudioFile create audioPath options w = (res, w1, evs)"
    by (cases "transcribeAudioFile create audioPath options w") auto
  let ?c = "\<lparr>call_path = audioPath, call_options = options,
              call_attempts = evs, call_result = res\<rparr>"
  from transcribeAudioFile_settled[OF call] have "settled ?c" .
  then have rq: "\<forall>rq \<in> set (requests (call_attempts ?c)). req_file rq = audioPath"
    using settled_requests[of ?c] by simp
  from assms call have "tr = [Call ?c] \<and> w' = w1 \<and>
    (case res of
       Inr t \<Rightarrow> r = Inr \<lparr>transcript = t, chunksProcessed = 1\<rparr>
     | Inl e \<Rightarrow> r = Inl e)"
    by (cases res) (auto simp: transcribeAudio_def transcribeSingle_def)
  with call rq show ?thesis
    by (intro exI[of _ ?c]) simp
qed

theorem transcribeAudio_without_chunks_witness:
  "transcribeAudio (scripted [Inr (Structured (js ''Hello world.''))])
     (js ''extracted_audio.mp3'') None no_options 0 =
   (Inr \<lparr>transcript = js ''Hello world.'', chunksProcessed = 1\<rparr>, 1,
    [Call \<lparr>call_path = js ''extracted_audio.mp3'', call_options = no_options,
        call_attempts = [Request (text_request (js ''extracted_audio.mp3'') None)
                           (Inr (Structured (js ''Hello world.'')))],
        call_result = Inr (js ''Hello world.'')\<rparr>]) \<and>
   transcribeAudioFile (scripted [Inr (Structured (js ''Hello world.''))])
     (js ''extracted_audio.mp3'') no_options 0 =
   (Inr (js ''Hello world.''), 1,
    [Request (text_request (js ''extracted_audio.mp3'') None)
       (Inr (Structured (js ''Hello world.'')))])"
proof -
  let ?c = "\<lparr>call_path = js ''extracted_audio.mp3'', call_options = no_options,
        call_attempts = [Request (text_request (js ''extracted_audio.mp3'') None)
                           (Inr (Structured (js ''Hello world.'')))],
        call_result = Inr (js ''Hello world.'')\<rparr> :: nat call"
  from transcribeAudio_without_chunks[OF single_run] obtain c where
    c: "[Call ?c] = [Call c]"
       "transcribeAudioFile (scripted [Inr (Structured (js ''Hello world.''))])
          (js ''extracted_audio.mp3'') no_options 0 = (call_result c, 1, call_attempts c)"
    by blast
  from c(1) have "c = ?c" by simp
  with c(2) have "transcribeAudioFile (scripted [Inr (Structured (js ''Hello world.''))])
     (js ''extracted_audio.mp3'') no_options 0 =
   (Inr (js ''Hello world.''), 1,
    [Request (text_request (js ''extracted_audio.mp3'') None)
       (Inr (Structured (js ''Hello world.'')))])"
    by simp
  with single_run show ?thesis by blast
qed

text \<open>
  C10. With an empty chunk list, \<open>transcribeAudio\<close> does exactly what it does with no chunk
  list: one call on the whole audio file, and on success a processed count of 1 with that
  call's output. (Calling \<open>transcribeChunks\<close> on the empty list would instead give the empty
  transcript and a count of 0.)
\<close>

theorem transcribeAudio_empty_chunk_list:
  "transcribeAudio create audioPath (Some []) options w =
     transcribeAudio create audioPath None options w \<and>
   (transcribeAudio create audioPath (Some []) options w = (r, w', tr) \<longrightarrow>
      length (calls tr) = 1 \<and> call_path (hd (calls tr)) = audioPath \<and>
      call_options (hd (calls tr)) = options \<and>
      (case r of
         Inr res \<Rightarrow> chunksProcessed res = 1 \<and>
                    call_result (hd (calls tr)) = Inr (transcript res)
       | Inl e \<Rightarrow> call_result (hd (calls tr)) = Inl e)) \<and>
   transcribeChunks create [] options w =
     (Inr \<lparr>transcript = [], chunksProcessed = 0\<rparr>, w, [])"
proof -
  have same: "transcribeAudio create audioPath (Some []) options w =
     transcribeAudio create audioPath None options w"
    by (simp add: transcribeAudio_def)
  have one: "length (calls tr) = 1 \<and> call_path (hd (calls tr)) = audioPath \<and>
      call_options (hd (calls tr)) = options \<and>
      (case r of
         Inr res \<Rightarrow> chunksProcessed res = 1 \<and>
                    call_result (hd (calls tr)) = Inr (transcript res)
       | Inl e \<Rightarrow> call_result (hd (calls tr)) = Inl e)"
    if "transcribeAudio create audioPath (Some []) options w = (r, w', tr)"
  proof -
    obtain res w1 evs where
      call: "transcribeAudioFile create audioPath options w = (res, w1, evs)"
      by (cases "transcribeAudioFile create audioPath options w") auto
    with that show ?thesis
      by (cases res) (auto simp: transcribeAudio_def transcribeSingle_def)
  qed
  have none: "transcribeChunks create [] options w =
     (Inr \<lparr>transcript = [], chunksProcessed = 0\<rparr>, w, [])"
    by (simp add: transcribeChunks_def chunks_loop_done)
  from same one none show ?thesis by blast
qed

theorem transcribeAudio_empty_chunk_list_witness:
  "transcribeAudio (scripted [Inr (Structured (js ''Hello world.''))])
     (js ''extracted_audio.mp3'') (Some []) no_options 0 =
   (Inr \<lparr>transcript = js ''Hello world.'', chunksProcessed = 1\<rparr>, 1,
    [Call \<lparr>call_path = js ''extracted_audio.mp3'', call_options = no_options,
        call_attempts = [Request (text_request (js ''extracted_audio.mp3'') None)
                           (Inr (Structured (js ''Hello world.'')))],
        call_result = Inr (js ''Hello world.'')\<rparr>]) \<and>
   chunksProcessed \<lparr>transcript = js ''Hello world.'', chunksProcessed = 1\<rparr> = 1"
proof -
  note t = transcribeAudio_empty_chunk_list[where
      create="scripted [Inr (Structured (js ''Hello world.''))]"
      and audioPath="js ''extracted_audio.mp3''" and options=no_options and w=0
      and r="Inr \<lparr>transcript = js ''Hello world.'', chunksProcessed = 1\<rparr>" and w'=1
      and tr="[Call \<lparr>call_path = js ''extracted_audio.mp3'', call_options = no_options,
        call_attempts = [Request (text_request (js ''extracted_audio.mp3'') None)
                           (Inr (Structured (js ''Hello world.'')))],
        call_result = Inr (js ''Hello world.'')\<rparr>]"]
  from t single_run have run: "transcribeAudio (scripted [Inr (Structured (js ''Hello world.''))])
     (js ''extracted_audio.mp3'') (Some []) no_options 0 =
   (Inr \<lparr>transcript = js ''Hello world.'', chunksProcessed = 1\<rparr>, 1,
    [Call \<lparr>call_path = js ''extracted_audio.mp3'', call_options = no_options,
        call_attempts = [Request (text_request (js ''extracted_audio.mp3'') None)
                           (Inr (Structured (js ''Hello world.'')))],
        call_result = Inr (js ''Hello world.'')\<rparr>])"
    by simp
  with t have "chunksProcessed \<lparr>transcript = js ''Hello world.'', chunksProcessed = 1\<rparr> = 1"
    by simp
  with run show ?thesis by blast
qed

end
